theory Spec2Isabelle
  imports Main
begin

chapter \<open>Window docking and panel layout of the Audacious GTK interfaces\<close>

text \<open>
  A shallow embedding of two C files: \<^verbatim>\<open>src/skins/ui_dock.c\<close> (snapping and docking of
  free-floating skinned windows) and \<^verbatim>\<open>src/gtkui/layout.c\<close> (named panels docked in four
  bays or floating, and the persisted layout file), followed by the properties proved
  about them.

  Conventions. The value of a \<^verbatim>\<open>gint\<close> is an \<^typ>\<open>int\<close>. The sums and differences that
  the adjacency test, the traversal of the docked windows and the snap correction compute
  wrap around at 32 bits, and the wrap-around is written out where they are computed.
  A pointer to a GTK object is its identity, a \<^typ>\<open>nat\<close>; a pointer that may be
  \<^verbatim>\<open>NULL\<close> is an \<^typ>\<open>nat option\<close>. A \<^verbatim>\<open>GList\<close> is a list. Mutation of globals and of GTK
  state is explicit state passing.
\<close>

section \<open>ui_dock.c: the embedding\<close>

subsection \<open>Arithmetic of gint\<close>

text \<open>
  A \<^verbatim>\<open>gint\<close> is a 32-bit two's complement integer. The model keeps its value as an
  \<^typ>\<open>int\<close> and writes the wrap-around out: \<open>gint_of i\<close> is the value a \<^verbatim>\<open>gint\<close> holds
  when the exact result would be \<open>i\<close>. \<^verbatim>\<open>abs\<close> of the least value is that value again.
\<close>

definition gint_of :: "int \<Rightarrow> int" where
  "gint_of i = (i + 2147483648) mod 4294967296 - 2147483648"

definition gint_add :: "int \<Rightarrow> int \<Rightarrow> int" where
  "gint_add a b = gint_of (a + b)"

definition gint_sub :: "int \<Rightarrow> int \<Rightarrow> int" where
  "gint_sub a b = gint_of (a - b)"

definition gint_abs :: "int \<Rightarrow> int" where
  "gint_abs a = (if a < 0 then gint_of (- a) else a)"

subsection \<open>Data\<close>

type_synonym GtkWindow = nat

text \<open>\<^verbatim>\<open>struct _DockedWindow { GtkWindow *w; gint offset_x, offset_y; }\<close>\<close>

record DockedWindow =
  dw_w :: GtkWindow
  dw_offset_x :: int
  dw_offset_y :: int

text \<open>
  What the toolkit answers for \<^verbatim>\<open>gtk_window_get_position\<close>, \<^verbatim>\<open>gtk_window_get_size\<close>,
  \<^verbatim>\<open>gdk_screen_width\<close> and \<^verbatim>\<open>gdk_screen_height\<close>.
\<close>

record display =
  win_pos :: "GtkWindow \<Rightarrow> int \<times> int"
  win_size :: "GtkWindow \<Rightarrow> int \<times> int"
  screen_width :: int
  screen_height :: int

text \<open>The fields of the global \<^verbatim>\<open>config\<close> that ui_dock.c reads and writes.\<close>

record skins_cfg =
  show_wm_decorations :: bool
  snap_windows :: bool
  snap_distance :: int
  player_x :: int
  player_y :: int
  equalizer_x :: int
  equalizer_y :: int
  playlist_x :: int
  playlist_y :: int

text \<open>
  \<^verbatim>\<open>window->type\<close> of a \<^verbatim>\<open>SkinnedWindow\<close>; \<open>WINDOW_OTHER\<close> stands for every value that
  the \<^verbatim>\<open>switch\<close> of \<^verbatim>\<open>docked_list_move\<close> has no case for.
\<close>

datatype window_type = WINDOW_MAIN | WINDOW_EQ | WINDOW_PLAYLIST | WINDOW_OTHER

text \<open>
  The state the drag functions work on: \<^verbatim>\<open>config\<close>, the display, the skinned windows'
  own \<^verbatim>\<open>type\<close>, \<^verbatim>\<open>x\<close>, \<^verbatim>\<open>y\<close>, the windows raised by \<^verbatim>\<open>gtk_window_present\<close>, and the five
  keys that \<^verbatim>\<open>g_object_set_data\<close> attaches to a window. A key holding \<^verbatim>\<open>NULL\<close> reads as
  \<open>0\<close> (through \<^verbatim>\<open>GPOINTER_TO_INT\<close>) or as the empty list.
\<close>

record dock_state =
  config :: skins_cfg
  disp :: display
  skinned_type :: "GtkWindow \<Rightarrow> window_type"
  skinned_x :: "GtkWindow \<Rightarrow> int"
  skinned_y :: "GtkWindow \<Rightarrow> int"
  presented :: "GtkWindow list"
  move_offset_x :: "GtkWindow \<Rightarrow> int"
  move_offset_y :: "GtkWindow \<Rightarrow> int"
  docked_list :: "GtkWindow \<Rightarrow> DockedWindow list"
  window_list :: "GtkWindow \<Rightarrow> GtkWindow list"
  is_moving :: "GtkWindow \<Rightarrow> int"

subsection \<open>List search\<close>

definition docked_list_compare :: "DockedWindow \<Rightarrow> DockedWindow \<Rightarrow> int" where
  "docked_list_compare a b = (if dw_w a = dw_w b then 0 else 1)"

text \<open>
  \<^verbatim>\<open>g_list_find_custom (list, data, func)\<close>: the first element \<open>e\<close> with
  \<open>func e data = 0\<close>, or \<^verbatim>\<open>NULL\<close>.
\<close>

definition g_list_find_custom :: "'a list \<Rightarrow> 'b \<Rightarrow> ('a \<Rightarrow> 'b \<Rightarrow> int) \<Rightarrow> 'a option" where
  "g_list_find_custom xs d f = find (\<lambda>e. f e d = 0) xs"

subsection \<open>Snapping\<close>

text \<open>
  \<^verbatim>\<open>snap_edge\<close> updates \<^verbatim>\<open>*x\<close> and \<^verbatim>\<open>*y\<close> in place; the model returns the pair. Each
  test reads the values the earlier assignments left.
\<close>

definition snap_edge ::
  "int \<Rightarrow> int \<times> int \<Rightarrow> int \<Rightarrow> int \<Rightarrow> int \<Rightarrow> int \<Rightarrow> int \<Rightarrow> int \<Rightarrow> int \<times> int" where
  "snap_edge sd xy w h bx by bw bh =
     (let (x, y) = xy;
          (x, y) =
            (if (gint_add x w > gint_sub bx sd) \<and> (gint_add x w < gint_add bx sd) \<and>
                (y > gint_sub (gint_sub by h) sd) \<and> (y < gint_add (gint_add by bh) sd)
             then
               (let x = gint_sub bx w;
                    y = (if (y > gint_sub by sd) \<and> (y < gint_add by sd) then by else y);
                    y = (if (gint_add y h > gint_sub (gint_add by bh) sd) \<and>
                            (gint_add y h < gint_add (gint_add by bh) sd)
                         then gint_sub (gint_add by bh) h else y)
                in (x, y))
             else (x, y));
          (x, y) =
            (if (x > gint_sub (gint_add bx bw) sd) \<and> (x < gint_add (gint_add bx bw) sd) \<and>
                (y > gint_sub (gint_sub by h) sd) \<and> (y < gint_add (gint_add by bh) sd)
             then
               (let x = gint_add bx bw;
                    y = (if (y > gint_sub by sd) \<and> (y < gint_add by sd) then by else y);
                    y = (if (gint_add y h > gint_sub (gint_add by bh) sd) \<and>
                            (gint_add y h < gint_add (gint_add by bh) sd)
                         then gint_sub (gint_add by bh) h else y)
                in (x, y))
             else (x, y))
      in (x, y))"

text \<open>
  \<^verbatim>\<open>snap\<close> calls \<^verbatim>\<open>snap_edge\<close> twice, the second time with the two axes exchanged
  (\<^verbatim>\<open>snap_edge(y, x, h, w, by, bx, bh, bw)\<close>).
\<close>

definition snap :: "int \<Rightarrow> int \<times> int \<Rightarrow> int \<Rightarrow> int \<Rightarrow> int \<Rightarrow> int \<Rightarrow> int \<Rightarrow> int \<Rightarrow> int \<times> int" where
  "snap sd xy w h bx by bw bh =
     (let (x, y) = snap_edge sd xy w h bx by bw bh;
          (y, x) = snap_edge sd (y, x) h w by bx bh bw
      in (x, y))"

text \<open>
  The body of the inner loop of \<^verbatim>\<open>calc_snap_offset\<close> (``snap to other windows''), for the
  docked window \<open>dw\<close> of size \<open>nw\<close>, \<open>nh\<close> and the candidate \<open>wn\<close>; the pair is
  \<^verbatim>\<open>(*off_x, *off_y)\<close>. A candidate that is in \<open>dlist\<close> is skipped (\<^verbatim>\<open>continue\<close>).
\<close>

definition calc_snap_window ::
  "skins_cfg \<Rightarrow> display \<Rightarrow> DockedWindow list \<Rightarrow> DockedWindow \<Rightarrow> int \<Rightarrow> int \<Rightarrow> int \<Rightarrow> int
     \<Rightarrow> GtkWindow \<Rightarrow> int \<times> int \<Rightarrow> int \<times> int" where
  "calc_snap_window c D dlist dw nw nh x y wn off =
     (if g_list_find_custom dlist \<lparr>dw_w = wn, dw_offset_x = 0, dw_offset_y = 0\<rparr> docked_list_compare
           \<noteq> None
      then off
      else
        (let (off_x, off_y) = off;
             (sx, sy) = win_pos D wn;
             (sw, sh) = win_size D wn;
             nx = gint_add (gint_add (dw_offset_x dw) off_x) x;
             ny = gint_add (gint_add (dw_offset_y dw) off_y) y;
             (nx, ny) = snap (snap_distance c) (nx, ny) nw nh sx sy sw sh;
             off_x' = gint_add off_x (gint_sub nx (gint_add (gint_add (dw_offset_x dw) off_x) x));
             off_y' = gint_add off_y (gint_sub ny (gint_add (gint_add (dw_offset_y dw) off_y) y))
         in (off_x', off_y')))"

text \<open>The inner loop, over the candidates still to visit.\<close>

fun calc_snap_windows ::
  "skins_cfg \<Rightarrow> display \<Rightarrow> DockedWindow list \<Rightarrow> DockedWindow \<Rightarrow> int \<Rightarrow> int \<Rightarrow> int \<Rightarrow> int
     \<Rightarrow> GtkWindow list \<Rightarrow> int \<times> int \<Rightarrow> int \<times> int" where
  "calc_snap_windows c D dlist dw nw nh x y [] off = off"
| "calc_snap_windows c D dlist dw nw nh x y (wn # wnode) off =
     calc_snap_windows c D dlist dw nw nh x y wnode (calc_snap_window c D dlist dw nw nh x y wn off)"

text \<open>
  The first half of the body of the outer loop (``snap to screen edges''): the four tests
  read \<open>nx\<close> and \<open>ny\<close> as computed once, before any of them.
\<close>

definition calc_snap_screen ::
  "skins_cfg \<Rightarrow> display \<Rightarrow> DockedWindow \<Rightarrow> int \<Rightarrow> int \<Rightarrow> int \<Rightarrow> int \<Rightarrow> int \<times> int \<Rightarrow> int \<times> int" where
  "calc_snap_screen c D dw nw nh x y off =
     (let (off_x, off_y) = off;
          nx = gint_add (gint_add (dw_offset_x dw) off_x) x;
          ny = gint_add (gint_add (dw_offset_y dw) off_y) y;
          off_x = (if gint_abs nx < snap_distance c then gint_sub off_x nx else off_x);
          off_y = (if gint_abs ny < snap_distance c then gint_sub off_y ny else off_y);
          off_x = (if gint_abs (gint_sub (gint_add nx nw) (screen_width D)) < snap_distance c
                   then gint_sub off_x (gint_sub (gint_add nx nw) (screen_width D)) else off_x);
          off_y = (if gint_abs (gint_sub (gint_add ny nh) (screen_height D)) < snap_distance c
                   then gint_sub off_y (gint_sub (gint_add ny nh) (screen_height D)) else off_y)
      in (off_x, off_y))"

text \<open>The body of the outer loop, for one docked window.\<close>

definition calc_snap_one ::
  "skins_cfg \<Rightarrow> display \<Rightarrow> DockedWindow list \<Rightarrow> GtkWindow list \<Rightarrow> int \<Rightarrow> int
     \<Rightarrow> DockedWindow \<Rightarrow> int \<times> int \<Rightarrow> int \<times> int" where
  "calc_snap_one c D dlist wlist x y dw off =
     (let (nw, nh) = win_size D (dw_w dw)
      in calc_snap_windows c D dlist dw nw nh x y wlist (calc_snap_screen c D dw nw nh x y off))"

text \<open>The outer loop of \<^verbatim>\<open>calc_snap_offset\<close>, over the docked windows still to visit.\<close>

fun calc_snap_docked ::
  "skins_cfg \<Rightarrow> display \<Rightarrow> DockedWindow list \<Rightarrow> GtkWindow list \<Rightarrow> int \<Rightarrow> int
     \<Rightarrow> DockedWindow list \<Rightarrow> int \<times> int \<Rightarrow> int \<times> int" where
  "calc_snap_docked c D dlist wlist x y [] off = off"
| "calc_snap_docked c D dlist wlist x y (dw # dnode) off =
     calc_snap_docked c D dlist wlist x y dnode (calc_snap_one c D dlist wlist x y dw off)"

definition calc_snap_offset ::
  "skins_cfg \<Rightarrow> display \<Rightarrow> DockedWindow list \<Rightarrow> GtkWindow list \<Rightarrow> int \<Rightarrow> int \<Rightarrow> int \<times> int" where
  "calc_snap_offset c D dlist wlist x y =
     (if \<not> snap_windows c then (0, 0)
      else calc_snap_docked c D dlist wlist x y dlist (0, 0))"

subsection \<open>Adjacency and the docked list\<close>

definition is_docked :: "int \<Rightarrow> int \<Rightarrow> int \<Rightarrow> int \<Rightarrow> int \<Rightarrow> int \<Rightarrow> int \<Rightarrow> int \<Rightarrow> bool" where
  "is_docked a_x a_y a_w a_h b_x b_y b_w b_h =
     (if ((a_x = gint_add b_x b_w) \<or> (gint_add a_x a_w = b_x)) \<and>
         (gint_add b_y b_h \<ge> a_y) \<and> (b_y \<le> gint_add a_y a_h)
      then True
      else if ((a_y = gint_add b_y b_h) \<or> (gint_add a_y a_h = b_y)) \<and>
              (b_x \<ge> gint_sub a_x b_w) \<and> (b_x \<le> gint_add a_x a_w)
      then True
      else False)"

text \<open>
  \<^verbatim>\<open>get_docked_list\<close> calls itself from inside its loop over \<^verbatim>\<open>wlist\<close>. The model is a
  pair of mutually recursive functions, \<open>get_docked_list\<close> for the function and
  \<open>get_docked_scan\<close> for its \<^verbatim>\<open>for\<close> loop over the nodes still to visit. The first argument
  bounds the depth of the recursive calls: a call that would go deeper returns \<open>None\<close>.
  The only field of \<^verbatim>\<open>temp\<close> that \<^verbatim>\<open>docked_list_compare\<close> reads is \<^verbatim>\<open>w\<close>; \<^verbatim>\<open>g_new0\<close>
  zeroes the offsets of the first element.
\<close>

fun get_docked_list ::
  "nat \<Rightarrow> display \<Rightarrow> DockedWindow list \<Rightarrow> GtkWindow list \<Rightarrow> GtkWindow \<Rightarrow> int \<Rightarrow> int
     \<Rightarrow> DockedWindow list option"
and get_docked_scan ::
  "nat \<Rightarrow> display \<Rightarrow> DockedWindow list \<Rightarrow> GtkWindow list \<Rightarrow> GtkWindow list \<Rightarrow> GtkWindow
     \<Rightarrow> int \<Rightarrow> int \<Rightarrow> DockedWindow list option"
where
  "get_docked_list 0 D dlist wlist w init_off_x init_off_y = None"
| "get_docked_list (Suc fuel) D dlist wlist w init_off_x init_off_y =
     get_docked_scan fuel D
       (if dlist = [] then dlist @ [\<lparr>dw_w = w, dw_offset_x = 0, dw_offset_y = 0\<rparr>] else dlist)
       wlist wlist w init_off_x init_off_y"
| "get_docked_scan fuel D dlist wlist [] w init_off_x init_off_y = Some dlist"
| "get_docked_scan fuel D dlist wlist (t # node) w init_off_x init_off_y =
     (if g_list_find_custom dlist \<lparr>dw_w = t, dw_offset_x = 0, dw_offset_y = 0\<rparr> docked_list_compare
           \<noteq> None
      then get_docked_scan fuel D dlist wlist node w init_off_x init_off_y
      else
        (case (win_pos D w, win_size D w, win_pos D t, win_size D t) of
          ((w_x, w_y), (w_width, w_height), (t_x, t_y), (t_width, t_height)) \<Rightarrow>
            if is_docked w_x w_y w_width w_height t_x t_y t_width t_height
            then
              (let dwin = \<lparr>dw_w = t, dw_offset_x = gint_add (gint_sub t_x w_x) init_off_x,
                              dw_offset_y = gint_add (gint_sub t_y w_y) init_off_y\<rparr>
               in case get_docked_list fuel D (dlist @ [dwin]) wlist (dw_w dwin)
                         (dw_offset_x dwin) (dw_offset_y dwin) of
                    None \<Rightarrow> None
                  | Some dlist' \<Rightarrow> get_docked_scan fuel D dlist' wlist node w init_off_x init_off_y)
            else get_docked_scan fuel D dlist wlist node w init_off_x init_off_y))"

subsection \<open>Moving the docked list\<close>

text \<open>
  The body of the loop of \<^verbatim>\<open>docked_list_move\<close>, and the loop. \<^verbatim>\<open>SKINNED_WINDOW(dw->w)\<close> is
  a cast of the same pointer, so the test \<^verbatim>\<open>if (window)\<close> holds for every window of the
  list.
\<close>

definition docked_window_move :: "dock_state \<Rightarrow> DockedWindow \<Rightarrow> int \<Rightarrow> int \<Rightarrow> dock_state" where
  "docked_window_move s dw x y =
     (let s = s\<lparr>disp := (disp s)\<lparr>win_pos := (win_pos (disp s))
                     (dw_w dw := (x + dw_offset_x dw, y + dw_offset_y dw))\<rparr>\<rparr>;
          s = (case skinned_type s (dw_w dw) of
                 WINDOW_MAIN \<Rightarrow>
                   s\<lparr>config := (config s)\<lparr>player_x := x + dw_offset_x dw,
                                            player_y := y + dw_offset_y dw\<rparr>\<rparr>
               | WINDOW_EQ \<Rightarrow>
                   s\<lparr>config := (config s)\<lparr>equalizer_x := x + dw_offset_x dw,
                                            equalizer_y := y + dw_offset_y dw\<rparr>\<rparr>
               | WINDOW_PLAYLIST \<Rightarrow>
                   s\<lparr>config := (config s)\<lparr>playlist_x := x + dw_offset_x dw,
                                            playlist_y := y + dw_offset_y dw\<rparr>\<rparr>
               | WINDOW_OTHER \<Rightarrow> s)
      in s\<lparr>skinned_x := (skinned_x s)(dw_w dw := x + dw_offset_x dw),
           skinned_y := (skinned_y s)(dw_w dw := y + dw_offset_y dw)\<rparr>)"

fun docked_list_move :: "dock_state \<Rightarrow> DockedWindow list \<Rightarrow> int \<Rightarrow> int \<Rightarrow> dock_state" where
  "docked_list_move s [] x y = s"
| "docked_list_move s (dw # node) x y = docked_list_move (docked_window_move s dw x y) node x y"

subsection \<open>The drag\<close>

text \<open>
  \<^verbatim>\<open>dock_move_press\<close>; \<open>mx\<close> and \<open>my\<close> are \<^verbatim>\<open>event->x\<close> and \<^verbatim>\<open>event->y\<close> as the
  assignment to a \<^verbatim>\<open>gint\<close> leaves them. The result is \<open>None\<close> only when the recursion
  bound given to \<open>get_docked_list\<close> is too small.
\<close>

definition dock_move_press ::
  "nat \<Rightarrow> dock_state \<Rightarrow> GtkWindow list \<Rightarrow> GtkWindow \<Rightarrow> int \<Rightarrow> int \<Rightarrow> bool \<Rightarrow> dock_state option" where
  "dock_move_press fuel s wlist w mx my move_list =
     (if show_wm_decorations (config s) then Some s
      else
        (let s = s\<lparr>presented := presented s @ [w]\<rparr>;
             s = s\<lparr>move_offset_x := (move_offset_x s)(w := mx)\<rparr>;
             s = s\<lparr>move_offset_y := (move_offset_y s)(w := my)\<rparr>
         in case (if move_list then get_docked_list fuel (disp s) [] wlist w 0 0
                  else Some ([] @ [\<lparr>dw_w = w, dw_offset_x = 0, dw_offset_y = 0\<rparr>])) of
              None \<Rightarrow> None
            | Some dl \<Rightarrow>
                Some (s\<lparr>docked_list := (docked_list s)(w := dl),
                        window_list := (window_list s)(w := wlist),
                        is_moving := (is_moving s)(w := 1)\<rparr>)))"

text \<open>
  \<^verbatim>\<open>dock_move_motion\<close>; \<open>x_root\<close> and \<open>y_root\<close> are the pointer's root-window
  coordinates \<^verbatim>\<open>event->x_root\<close> and \<^verbatim>\<open>event->y_root\<close>, whole pixels.
\<close>

definition dock_move_motion :: "dock_state \<Rightarrow> GtkWindow \<Rightarrow> int \<Rightarrow> int \<Rightarrow> dock_state" where
  "dock_move_motion s w x_root y_root =
     (if is_moving s w = 0 then s
      else
        (let offset_x = move_offset_x s w;
             offset_y = move_offset_y s w;
             dlist = docked_list s w;
             wlist = window_list s w;
             x = x_root - offset_x;
             y = y_root - offset_y;
             (offset_x, offset_y) = calc_snap_offset (config s) (disp s) dlist wlist x y;
             x = x + offset_x;
             y = y + offset_y
         in docked_list_move s dlist x y))"

definition dock_move_release :: "dock_state \<Rightarrow> GtkWindow \<Rightarrow> dock_state" where
  "dock_move_release s w =
     s\<lparr>is_moving := (is_moving s)(w := 0),
       move_offset_x := (move_offset_x s)(w := 0),
       move_offset_y := (move_offset_y s)(w := 0),
       docked_list := (docked_list s)(w := []),
       window_list := (window_list s)(w := [])\<rparr>"

definition dock_is_moving :: "dock_state \<Rightarrow> GtkWindow \<Rightarrow> bool" where
  "dock_is_moving s w = (if is_moving s w \<noteq> 0 then True else False)"

section \<open>layout.c: the embedding\<close>

unbundle bit_operations_syntax

subsection \<open>Data\<close>

type_synonym GtkWidget = nat

text \<open>\<^verbatim>\<open>enum {DOCK_LEFT, DOCK_RIGHT, DOCK_TOP, DOCK_BOTTOM, DOCKS}\<close> and the two macros.\<close>

definition DOCKS :: int where
  "DOCKS = 4"

definition IS_VERTICAL :: "int \<Rightarrow> bool" where
  "IS_VERTICAL d = (d AND 2 \<noteq> 0)"

definition IS_AFTER :: "int \<Rightarrow> bool" where
  "IS_AFTER d = (d AND 1 \<noteq> 0)"

text \<open>
  \<^verbatim>\<open>typedef struct { gchar * name; GtkWidget * widget, * vbox, * paned, * window;
  gint dock, x, y, w, h; } Item\<close>. The name is never \<^verbatim>\<open>NULL\<close>: \<^verbatim>\<open>item_new\<close> copies a
  string that both of its callers have checked.
\<close>

record Item =
  it_name :: string
  it_widget :: "GtkWidget option"
  it_vbox :: "GtkWidget option"
  it_paned :: "GtkWidget option"
  it_window :: "GtkWidget option"
  it_dock :: int
  it_x :: int
  it_y :: int
  it_w :: int
  it_h :: int

text \<open>\<^verbatim>\<open>RestoreSizeData\<close>, the argument of the idle callback \<^verbatim>\<open>restore_size_cb\<close>.\<close>

record RestoreSizeData =
  rs_paned :: GtkWidget
  rs_widget :: GtkWidget
  rs_vertical :: bool
  rs_w :: int
  rs_h :: int

text \<open>
  The part of the toolkit that layout.c acts on and reads back. Widgets are created with
  increasing identities (\<open>g_fresh\<close> is the next one). A widget has at most one parent and
  a container an ordered list of children; \<open>g_mine\<close> and \<open>g_next\<close> are the object data
  keys \<^verbatim>\<open>"mine"\<close> and \<^verbatim>\<open>"next"\<close>; \<open>g_refs\<close> counts the references taken with
  \<^verbatim>\<open>g_object_ref\<close>, besides the one the parent holds. \<open>g_allocation\<close> and \<open>g_position\<close> are
  what \<^verbatim>\<open>gtk_widget_get_allocation\<close> (width, height) and \<^verbatim>\<open>gtk_window_get_position\<close>
  answer; the remaining fields record the requests made with \<^verbatim>\<open>gtk_window_move\<close>,
  \<^verbatim>\<open>gtk_window_set_default_size\<close>, \<^verbatim>\<open>gtk_paned_set_position\<close> and \<^verbatim>\<open>g_idle_add\<close>.
\<close>

record gtk_world =
  g_fresh :: nat
  g_parent :: "GtkWidget \<Rightarrow> GtkWidget option"
  g_children :: "GtkWidget \<Rightarrow> GtkWidget list"
  g_mine :: "GtkWidget \<Rightarrow> GtkWidget option"
  g_next :: "GtkWidget \<Rightarrow> GtkWidget option"
  g_refs :: "GtkWidget \<Rightarrow> nat"
  g_allocation :: "GtkWidget \<Rightarrow> int \<times> int"
  g_position :: "GtkWidget \<Rightarrow> int \<times> int"
  g_moved :: "GtkWidget \<Rightarrow> (int \<times> int) option"
  g_default_size :: "GtkWidget \<Rightarrow> (int \<times> int) option"
  g_paned_position :: "GtkWidget \<Rightarrow> int option"
  g_idle :: "RestoreSizeData list"

text \<open>
  The globals of layout.c, the toolkit, and the layout file (\<open>None\<close> when it does not
  exist). \<open>criticals\<close> counts the \<^verbatim>\<open>g_return_if_fail\<close> guards of the functions below that
  have failed, each of which logs a critical warning and returns; \<open>wild_index\<close> counts the
  times \<^verbatim>\<open>docks[]\<close> has been indexed outside \<open>0 .. DOCKS - 1\<close>.
\<close>

record layout_state =
  items :: "Item list"
  layout :: "GtkWidget option"
  center :: "GtkWidget option"
  docks :: "GtkWidget option list"
  menu :: "GtkWidget option"
  gtk :: gtk_world
  layout_file :: "string option"
  criticals :: nat
  wild_index :: nat

definition critical :: "layout_state \<Rightarrow> layout_state" where
  "critical s = s\<lparr>criticals := Suc (criticals s)\<rparr>"

definition docks_at :: "layout_state \<Rightarrow> int \<Rightarrow> GtkWidget option" where
  "docks_at s d = (if 0 \<le> d \<and> d < DOCKS then docks s ! nat d else None)"

definition note_dock_index :: "int \<Rightarrow> layout_state \<Rightarrow> layout_state" where
  "note_dock_index d s = (if 0 \<le> d \<and> d < DOCKS then s else s\<lparr>wild_index := Suc (wild_index s)\<rparr>)"

subsection \<open>The toolkit\<close>

definition gtk_new :: "gtk_world \<Rightarrow> GtkWidget \<times> gtk_world" where
  "gtk_new g = (g_fresh g, g\<lparr>g_fresh := Suc (g_fresh g)\<rparr>)"

definition gtk_bin_get_child :: "gtk_world \<Rightarrow> GtkWidget \<Rightarrow> GtkWidget option" where
  "gtk_bin_get_child g c = (case g_children g c of [] \<Rightarrow> None | x # _ \<Rightarrow> Some x)"

text \<open>
  \<^verbatim>\<open>gtk_container_add\<close> on a \<^verbatim>\<open>GtkBin\<close> (every container layout.c adds to is an alignment
  or a window): refused with a warning when the widget has a parent or the bin a child.
\<close>

definition gtk_container_add :: "gtk_world \<Rightarrow> GtkWidget \<Rightarrow> GtkWidget \<Rightarrow> gtk_world" where
  "gtk_container_add g c w =
     (if g_parent g w \<noteq> None \<or> g_children g c \<noteq> [] then g
      else g\<lparr>g_parent := (g_parent g)(w \<mapsto> c), g_children := (g_children g)(c := [w])\<rparr>)"

text \<open>The same call with a widget pointer that may be \<^verbatim>\<open>NULL\<close>, which the toolkit refuses.\<close>

definition gtk_container_add_ptr :: "gtk_world \<Rightarrow> GtkWidget \<Rightarrow> GtkWidget option \<Rightarrow> gtk_world" where
  "gtk_container_add_ptr g c p = (case p of None \<Rightarrow> g | Some w \<Rightarrow> gtk_container_add g c w)"

text \<open>\<^verbatim>\<open>gtk_box_pack_start\<close>, \<^verbatim>\<open>gtk_paned_pack1\<close>, \<^verbatim>\<open>gtk_paned_pack2\<close>: one more child.\<close>

definition gtk_pack :: "gtk_world \<Rightarrow> GtkWidget \<Rightarrow> GtkWidget \<Rightarrow> gtk_world" where
  "gtk_pack g c w =
     (if g_parent g w \<noteq> None then g
      else g\<lparr>g_parent := (g_parent g)(w \<mapsto> c), g_children := (g_children g)(c := g_children g c @ [w])\<rparr>)"

text \<open>
  The widgets that go when \<open>w\<close> is destroyed: \<open>w\<close> and, through the children lists, all
  that it contains. The first argument bounds the depth; \<open>gtk_destroy\<close> gives it the
  number of widgets created so far, which no nesting can exceed.
\<close>

fun destroy_tree :: "nat \<Rightarrow> (GtkWidget \<Rightarrow> GtkWidget list) \<Rightarrow> GtkWidget \<Rightarrow> GtkWidget list" where
  "destroy_tree 0 ch w = [w]"
| "destroy_tree (Suc n) ch w = w # concat (map (destroy_tree n ch) (ch w))"

definition gtk_destroy :: "gtk_world \<Rightarrow> GtkWidget \<Rightarrow> gtk_world \<times> GtkWidget list" where
  "gtk_destroy g w =
     (let gone = destroy_tree (g_fresh g) (g_children g) w
      in (g\<lparr>g_parent := (\<lambda>v. if v \<in> set gone then None else g_parent g v),
            g_children := (\<lambda>c. if c \<in> set gone then [] else removeAll w (g_children g c))\<rparr>,
          gone))"

text \<open>
  \<^verbatim>\<open>gtk_container_remove\<close>: refused with a warning unless \<open>c\<close> is the parent of \<open>w\<close>;
  otherwise \<open>w\<close> is unparented, which drops the parent's reference, and \<open>w\<close> is destroyed
  unless somebody else holds one. The second component lists the destroyed widgets.
\<close>

definition gtk_container_remove ::
  "gtk_world \<Rightarrow> GtkWidget \<Rightarrow> GtkWidget \<Rightarrow> gtk_world \<times> GtkWidget list" where
  "gtk_container_remove g c w =
     (if g_parent g w \<noteq> Some c then (g, [])
      else
        (let g = g\<lparr>g_parent := (g_parent g)(w := None),
                   g_children := (g_children g)(c := removeAll w (g_children g c))\<rparr>
         in if g_refs g w = 0 then gtk_destroy g w else (g, [])))"

definition g_object_ref :: "gtk_world \<Rightarrow> GtkWidget \<Rightarrow> gtk_world" where
  "g_object_ref g w = g\<lparr>g_refs := (g_refs g)(w := Suc (g_refs g w))\<rparr>"

definition g_object_unref :: "gtk_world \<Rightarrow> GtkWidget \<Rightarrow> gtk_world \<times> GtkWidget list" where
  "g_object_unref g w =
     (let g = g\<lparr>g_refs := (g_refs g)(w := g_refs g w - 1)\<rparr>
      in if g_refs g w = 0 \<and> g_parent g w = None then gtk_destroy g w else (g, []))"

text \<open>
  \<^verbatim>\<open>NULL_ON_DESTROY\<close> is connected to every widget that \<^verbatim>\<open>layout\<close>, \<^verbatim>\<open>center\<close>,
  \<^verbatim>\<open>docks[]\<close>, \<^verbatim>\<open>menu\<close> or a pointer field of an \<^verbatim>\<open>Item\<close> is set to, and these variables
  are set only while they are \<^verbatim>\<open>NULL\<close>: when widgets are destroyed, the variables
  pointing to them become \<^verbatim>\<open>NULL\<close>.
\<close>

definition cleared :: "GtkWidget list \<Rightarrow> GtkWidget option \<Rightarrow> GtkWidget option" where
  "cleared gone p = (case p of None \<Rightarrow> None | Some w \<Rightarrow> if w \<in> set gone then None else Some w)"

definition null_on_destroy :: "GtkWidget list \<Rightarrow> layout_state \<Rightarrow> layout_state" where
  "null_on_destroy gone s =
     s\<lparr>items := map (\<lambda>it. it\<lparr>it_widget := cleared gone (it_widget it),
                               it_vbox := cleared gone (it_vbox it),
                               it_paned := cleared gone (it_paned it),
                               it_window := cleared gone (it_window it)\<rparr>) (items s),
       layout := cleared gone (layout s),
       center := cleared gone (center s),
       docks := map (cleared gone) (docks s),
       menu := cleared gone (menu s)\<rparr>"

text \<open>
  The three toolkit calls that can destroy widgets, acting on the whole state. A widget
  pointer that is \<^verbatim>\<open>NULL\<close> makes the toolkit refuse the call.
\<close>

definition container_remove :: "GtkWidget \<Rightarrow> GtkWidget option \<Rightarrow> layout_state \<Rightarrow> layout_state" where
  "container_remove c p s =
     (case p of
        None \<Rightarrow> s
      | Some w \<Rightarrow>
          (let (g, gone) = gtk_container_remove (gtk s) c w in null_on_destroy gone (s\<lparr>gtk := g\<rparr>)))"

definition widget_destroy :: "GtkWidget option \<Rightarrow> layout_state \<Rightarrow> layout_state" where
  "widget_destroy p s =
     (case p of
        None \<Rightarrow> s
      | Some w \<Rightarrow>
          (let g = gtk s;
               g = (case g_parent g w of
                      None \<Rightarrow> g
                    | Some c \<Rightarrow> g\<lparr>g_parent := (g_parent g)(w := None),
                                   g_children := (g_children g)(c := removeAll w (g_children g c))\<rparr>);
               (g, gone) = gtk_destroy g w
           in null_on_destroy gone (s\<lparr>gtk := g\<rparr>)))"

definition object_unref :: "GtkWidget \<Rightarrow> layout_state \<Rightarrow> layout_state" where
  "object_unref w s =
     (let (g, gone) = g_object_unref (gtk s) w in null_on_destroy gone (s\<lparr>gtk := g\<rparr>))"

subsection \<open>Creating the layout and its widgets\<close>

definition layout_new :: "layout_state \<Rightarrow> layout_state" where
  "layout_new s =
     (if layout s \<noteq> None then critical s
      else (let (a, g) = gtk_new (gtk s) in s\<lparr>layout := Some a, gtk := g\<rparr>))"

definition layout_add_center :: "GtkWidget option \<Rightarrow> layout_state \<Rightarrow> layout_state" where
  "layout_add_center widget s =
     (case (layout s, center s, widget) of
        (Some l, None, Some c) \<Rightarrow> s\<lparr>center := Some c, gtk := gtk_container_add (gtk s) l c\<rparr>
      | _ \<Rightarrow> critical s)"

text \<open>
  \<^verbatim>\<open>vbox_new\<close>: a box holding an event box with the label, and the widget. The event box
  and the label are children that no variable of layout.c points to.
\<close>

definition vbox_new :: "GtkWidget \<Rightarrow> gtk_world \<Rightarrow> GtkWidget \<times> gtk_world" where
  "vbox_new widget g =
     (let (vbox, g) = gtk_new g;
          (ebox, g) = gtk_new g;
          g = gtk_pack g vbox ebox;
          (label, g) = gtk_new g;
          g = gtk_container_add g ebox label;
          g = gtk_pack g vbox widget
      in (vbox, g))"

text \<open>
  \<^verbatim>\<open>paned_new\<close>: the paned and its two alignments \<^verbatim>\<open>mine\<close> and \<^verbatim>\<open>next\<close>, packed in the
  order \<^verbatim>\<open>after\<close> asks for; the size is restored at once, or from an idle callback.
\<close>

definition paned_new :: "bool \<Rightarrow> bool \<Rightarrow> int \<Rightarrow> int \<Rightarrow> gtk_world \<Rightarrow> GtkWidget \<times> gtk_world" where
  "paned_new vertical after w h g =
     (let (paned, g) = gtk_new g;
          (mine, g) = gtk_new g;
          (next, g) = gtk_new g;
          g = gtk_pack g paned (if after then next else mine);
          g = gtk_pack g paned (if after then mine else next);
          g = g\<lparr>g_mine := (g_mine g)(paned \<mapsto> mine), g_next := (g_next g)(paned \<mapsto> next)\<rparr>;
          g = (if (if vertical then h else w) \<noteq> 0
               then (if after
                     then g\<lparr>g_idle := g_idle g @ [\<lparr>rs_paned = paned, rs_widget = mine,
                                                     rs_vertical = vertical, rs_w = w, rs_h = h\<rparr>]\<rparr>
                     else g\<lparr>g_paned_position := (g_paned_position g)
                                (paned \<mapsto> (if vertical then h else w))\<rparr>)
               else g)
      in (paned, g))"

subsection \<open>Items\<close>

text \<open>
  An \<^verbatim>\<open>Item *\<close> is the position of the item in \<^verbatim>\<open>items\<close>; \<^verbatim>\<open>item_new\<close> appends and
  returns the new position.
\<close>

definition item_new :: "string \<Rightarrow> Item list \<Rightarrow> nat \<times> Item list" where
  "item_new name its =
     (length its,
      its @ [\<lparr>it_name = name, it_widget = None, it_vbox = None, it_paned = None, it_window = None,
              it_dock = - 1, it_x = - 1, it_y = - 1, it_w = 0, it_h = 0\<rparr>])"

definition item_by_widget :: "Item \<Rightarrow> GtkWidget \<Rightarrow> int" where
  "item_by_widget item widget = (if it_widget item \<noteq> Some widget then 1 else 0)"

text \<open>\<^verbatim>\<open>strcmp\<close>, of which the caller only asks whether it is 0.\<close>

definition item_by_name :: "Item \<Rightarrow> string \<Rightarrow> int" where
  "item_by_name item name = (if it_name item = name then 0 else 1)"

text \<open>The node that \<^verbatim>\<open>g_list_find_custom\<close> returns, as a position.\<close>

fun find_node :: "('a \<Rightarrow> bool) \<Rightarrow> 'a list \<Rightarrow> nat option" where
  "find_node P [] = None"
| "find_node P (x # xs) = (if P x then Some 0 else map_option Suc (find_node P xs))"

definition g_list_find_custom_node :: "'a list \<Rightarrow> 'b \<Rightarrow> ('a \<Rightarrow> 'b \<Rightarrow> int) \<Rightarrow> nat option" where
  "g_list_find_custom_node xs d f = find_node (\<lambda>e. f e d = 0) xs"

text \<open>
  \<^verbatim>\<open>dock_get_parent\<close>: the loop \<^verbatim>\<open>for (scan = dock; scan --; )\<close> visits \<open>dock - 1\<close> down
  to 0.
\<close>

fun dock_get_parent_scan :: "layout_state \<Rightarrow> nat \<Rightarrow> GtkWidget option" where
  "dock_get_parent_scan s 0 = layout s"
| "dock_get_parent_scan s (Suc scan) =
     (case docks s ! scan of
        Some d \<Rightarrow> g_next (gtk s) d
      | None \<Rightarrow> dock_get_parent_scan s scan)"

definition dock_get_parent :: "layout_state \<Rightarrow> int \<Rightarrow> GtkWidget option" where
  "dock_get_parent s dock =
     (if \<not> (dock \<ge> 0 \<and> dock < DOCKS) then None else dock_get_parent_scan s (nat dock))"

text \<open>\<^verbatim>\<open>item_get_prev\<close> walks \<^verbatim>\<open>node->prev\<close> from the item, \<^verbatim>\<open>item_get_next\<close> walks
  \<^verbatim>\<open>node->next\<close>.\<close>

fun item_scan_prev :: "Item list \<Rightarrow> int \<Rightarrow> nat \<Rightarrow> nat option" where
  "item_scan_prev its d 0 = None"
| "item_scan_prev its d (Suc j) =
     (if it_widget (its ! j) \<noteq> None \<and> it_dock (its ! j) = d then Some j
      else item_scan_prev its d j)"

definition item_get_prev :: "Item list \<Rightarrow> nat \<Rightarrow> nat option" where
  "item_get_prev its i =
     (if \<not> i < length its then None else item_scan_prev its (it_dock (its ! i)) i)"

definition item_get_next :: "Item list \<Rightarrow> nat \<Rightarrow> nat option" where
  "item_get_next its i =
     (if \<not> i < length its then None
      else map_option (\<lambda>k. Suc i + k)
             (find_node (\<lambda>test. it_widget test \<noteq> None \<and> it_dock test = it_dock (its ! i))
                (drop (Suc i) its)))"

text \<open>\<^verbatim>\<open>g_object_get_data\<close> of a \<^verbatim>\<open>NULL\<close> object is \<^verbatim>\<open>NULL\<close>.\<close>

definition item_get_parent :: "layout_state \<Rightarrow> nat \<Rightarrow> GtkWidget option" where
  "item_get_parent s i =
     (case item_get_prev (items s) i of
        Some prev \<Rightarrow> (case it_paned (items s ! prev) of None \<Rightarrow> None | Some p \<Rightarrow> g_next (gtk s) p)
      | None \<Rightarrow> (case docks_at s (it_dock (items s ! i)) of
                   None \<Rightarrow> None | Some d \<Rightarrow> g_mine (gtk s) d))"

text \<open>The same call as a step of the state: it indexes \<^verbatim>\<open>docks[]\<close> when there is no
  previous item.\<close>

definition item_get_parent_note :: "nat \<Rightarrow> layout_state \<Rightarrow> layout_state" where
  "item_get_parent_note i s =
     (case item_get_prev (items s) i of
        Some prev \<Rightarrow> s
      | None \<Rightarrow> note_dock_index (it_dock (items s ! i)) s)"

definition item_save_size :: "nat \<Rightarrow> layout_state \<Rightarrow> layout_state" where
  "item_save_size i s =
     (let item = items s ! i in
      case (it_widget item, it_vbox item) of
        (Some widget, Some vbox) \<Rightarrow>
          (let (width, height) = g_allocation (gtk s) vbox;
               item = item\<lparr>it_w := width, it_h := height\<rparr>;
               s = s\<lparr>items := (items s)[i := item]\<rparr>
           in if it_dock item < 0
              then (case it_window item of
                      None \<Rightarrow> critical s
                    | Some window \<Rightarrow>
                        (let (x, y) = g_position (gtk s) window
                         in s\<lparr>items := (items s)[i := item\<lparr>it_x := x, it_y := y\<rparr>]\<rparr>))
              else s)
      | _ \<Rightarrow> critical s)"

text \<open>
  \<^verbatim>\<open>item_add\<close>, in three parts: the branch for a floating item, the ``screwy logic'' that
  finds where the new \<^verbatim>\<open>GtkPaned\<close> goes, and the re-parenting that ends the docked
  branch.
\<close>

definition item_add_window :: "nat \<Rightarrow> layout_state \<Rightarrow> layout_state" where
  "item_add_window i s =
     (let item = items s ! i;
          (window, g) = gtk_new (gtk s);
          g = (if it_x item \<ge> 0 \<and> it_y item \<ge> 0
               then g\<lparr>g_moved := (g_moved g)(window \<mapsto> (it_x item, it_y item))\<rparr> else g);
          g = (if it_w item > 0 \<and> it_h item > 0
               then g\<lparr>g_default_size := (g_default_size g)(window \<mapsto> (it_w item, it_h item))\<rparr>
               else g);
          g = gtk_container_add_ptr g window (it_vbox item)
      in s\<lparr>items := (items s)[i := item\<lparr>it_window := Some window\<rparr>], gtk := g\<rparr>)"

definition item_add_place ::
  "nat \<Rightarrow> bool \<Rightarrow> GtkWidget \<Rightarrow> GtkWidget \<Rightarrow> layout_state \<Rightarrow> layout_state" where
  "item_add_place i swap parent paned s =
     (case (g_mine (gtk s) paned, g_next (gtk s) paned, gtk_bin_get_child (gtk s) parent) of
        (Some mine, Some next, Some child) \<Rightarrow>
          (let s = s\<lparr>gtk := g_object_ref (gtk s) child\<rparr>;
               s = container_remove parent (Some child) s;
               s = s\<lparr>gtk := gtk_container_add (gtk s) parent paned\<rparr>;
               s = s\<lparr>gtk := gtk_container_add_ptr (gtk s) (if swap then next else mine)
                                (it_vbox (items s ! i))\<rparr>;
               s = s\<lparr>gtk := gtk_container_add (gtk s) (if swap then mine else next) child\<rparr>
           in object_unref child s)
      | _ \<Rightarrow> critical s)"

definition item_add_paned :: "nat \<Rightarrow> layout_state \<Rightarrow> layout_state" where
  "item_add_paned i s =
     (let item = items s ! i;
          s = note_dock_index (it_dock item) s
      in if docks_at s (it_dock item) \<noteq> None
         then
           (if item_get_next (items s) i = None
            then
              (case item_get_prev (items s) i of
                 None \<Rightarrow> critical s
               | Some w \<Rightarrow>
                   if it_paned (items s ! w) \<noteq> None then critical s
                   else
                     (let s = item_save_size w s;
                          s = item_get_parent_note w s
                      in case item_get_parent s w of
                           None \<Rightarrow> critical s
                         | Some parent \<Rightarrow>
                             (let wh = items s ! w;
                                  (paned, g) = paned_new (\<not> IS_VERTICAL (it_dock wh)) False
                                                 (it_w wh) (it_h wh) (gtk s);
                                  s = s\<lparr>items := (items s)[w := wh\<lparr>it_paned := Some paned\<rparr>],
                                        gtk := g\<rparr>
                              in item_add_place i True parent paned s)))
            else
              (let s = item_get_parent_note i s
               in case item_get_parent s i of
                    None \<Rightarrow> critical s
                  | Some parent \<Rightarrow>
                      (let wh = items s ! i;
                           (paned, g) = paned_new (\<not> IS_VERTICAL (it_dock wh)) False
                                          (it_w wh) (it_h wh) (gtk s);
                           s = s\<lparr>items := (items s)[i := wh\<lparr>it_paned := Some paned\<rparr>], gtk := g\<rparr>
                       in item_add_place i False parent paned s)))
         else
           (case dock_get_parent s (it_dock item) of
              None \<Rightarrow> critical s
            | Some parent \<Rightarrow>
                (let (paned, g) = paned_new (IS_VERTICAL (it_dock item)) (IS_AFTER (it_dock item))
                                    (it_w item) (it_h item) (gtk s);
                     s = s\<lparr>docks := (docks s)[nat (it_dock item) := Some paned], gtk := g\<rparr>
                 in item_add_place i False parent paned s)))"

definition item_add :: "nat \<Rightarrow> layout_state \<Rightarrow> layout_state" where
  "item_add i s =
     (let item = items s ! i in
      if \<not> (it_widget item \<noteq> None \<and> it_vbox item \<noteq> None \<and> it_paned item = None \<and>
             it_window item = None \<and> it_dock item < DOCKS)
      then critical s
      else if it_dock item < 0 then item_add_window i s
      else item_add_paned i s)"

text \<open>\<^verbatim>\<open>item_remove\<close>, with the re-parenting of its docked branch as a part of its own.\<close>

definition item_remove_place ::
  "nat \<Rightarrow> bool \<Rightarrow> GtkWidget \<Rightarrow> GtkWidget option \<Rightarrow> layout_state \<Rightarrow> layout_state" where
  "item_remove_place i swap parent paned s =
     (case (case paned of None \<Rightarrow> None | Some p \<Rightarrow> g_mine (gtk s) p,
            case paned of None \<Rightarrow> None | Some p \<Rightarrow> g_next (gtk s) p) of
        (Some mine, Some next) \<Rightarrow>
          (case gtk_bin_get_child (gtk s) (if swap then mine else next) of
             None \<Rightarrow> critical s
           | Some child \<Rightarrow>
               (let s = s\<lparr>gtk := g_object_ref (gtk s) child\<rparr>;
                    s = container_remove (if swap then next else mine) (it_vbox (items s ! i)) s;
                    s = container_remove (if swap then mine else next) (Some child) s;
                    s = container_remove parent paned s;
                    s = s\<lparr>gtk := gtk_container_add (gtk s) parent child\<rparr>
                in object_unref child s))
      | _ \<Rightarrow> critical s)"

definition item_remove :: "nat \<Rightarrow> layout_state \<Rightarrow> layout_state" where
  "item_remove i s =
     (if \<not> (it_widget (items s ! i) \<noteq> None \<and> it_vbox (items s ! i) \<noteq> None) then critical s
      else
        (let s = item_save_size i s;
             item = items s ! i
         in if it_dock item < 0
            then
              (case it_window item of
                 None \<Rightarrow> critical s
               | Some window \<Rightarrow>
                   (let s = container_remove window (it_vbox item) s
                    in widget_destroy (it_window (items s ! i)) s))
            else
              (let prev = item_get_prev (items s) i
               in if it_paned item \<noteq> None \<or> prev \<noteq> None
                  then
                    (if it_paned item = None
                     then
                       (case item_get_prev (items s) i of
                          None \<Rightarrow> critical s
                        | Some w \<Rightarrow>
                            if it_paned (items s ! w) = None then critical s
                            else
                              (let s = item_get_parent_note w s
                               in case item_get_parent s w of
                                    None \<Rightarrow> critical s
                                  | Some parent \<Rightarrow>
                                      item_remove_place i True parent (it_paned (items s ! w)) s))
                     else
                       (let s = item_get_parent_note i s
                        in case item_get_parent s i of
                             None \<Rightarrow> critical s
                           | Some parent \<Rightarrow> item_remove_place i False parent (it_paned item) s))
                  else
                    (case dock_get_parent s (it_dock item) of
                       None \<Rightarrow> critical s
                     | Some parent \<Rightarrow>
                         (let s = note_dock_index (it_dock item) s
                          in item_remove_place i False parent (docks_at s (it_dock item)) s)))))"

subsection \<open>Adding and removing panels\<close>

text \<open>
  \<^verbatim>\<open>layout_add\<close>. The widget and the name may be \<^verbatim>\<open>NULL\<close>; \<^verbatim>\<open>strlen\<close> is the length,
  \<^verbatim>\<open>strchr (name, '\n')\<close> the search for a line feed.
\<close>

definition layout_add :: "GtkWidget option \<Rightarrow> string option \<Rightarrow> layout_state \<Rightarrow> layout_state" where
  "layout_add widget name s =
     (case (layout s, center s, widget, name) of
        (Some l, Some c, Some wd, Some nm) \<Rightarrow>
          if \<not> (length nm \<le> 256 \<and> CHR 0x0A \<notin> set nm) then critical s
          else
            (case g_list_find_custom_node (items s) nm item_by_name of
               Some i \<Rightarrow>
                 (let item = items s ! i in
                  if \<not> (it_widget item = None \<and> it_vbox item = None \<and> it_window item = None)
                  then critical s
                  else
                    (let item = (if it_dock item \<ge> DOCKS then item\<lparr>it_dock := - 1\<rparr> else item);
                         (vbox, g) = vbox_new wd (gtk s);
                         s = s\<lparr>items := (items s)[i := item\<lparr>it_widget := Some wd,
                                                              it_vbox := Some vbox\<rparr>],
                               gtk := g\<rparr>
                     in item_add i s))
             | None \<Rightarrow>
                 (let (i, its) = item_new nm (items s);
                      (vbox, g) = vbox_new wd (gtk s);
                      s = s\<lparr>items := its[i := (its ! i)\<lparr>it_widget := Some wd, it_vbox := Some vbox\<rparr>],
                            gtk := g\<rparr>
                  in item_add i s))
      | _ \<Rightarrow> critical s)"

definition layout_remove :: "GtkWidget option \<Rightarrow> layout_state \<Rightarrow> layout_state" where
  "layout_remove widget s =
     (case (layout s, center s, widget) of
        (Some l, Some c, Some wd) \<Rightarrow>
          (let s = (case menu s of None \<Rightarrow> s | Some m \<Rightarrow> widget_destroy (Some m) s)
           in case g_list_find_custom_node (items s) wd item_by_widget of
                None \<Rightarrow> critical s
              | Some i \<Rightarrow>
                  (let s = item_remove i s;
                       item = items s ! i
                   in if \<not> (it_widget item = None \<and> it_vbox item = None \<and> it_window item = None)
                      then critical s else s))
      | _ \<Rightarrow> critical s)"

subsection \<open>The layout file\<close>

text \<open>
  \<^verbatim>\<open>fprintf\<close> with \<^verbatim>\<open>%d\<close>: the decimal digits of the absolute value, after a minus sign
  for a negative number.
\<close>

fun digits_of :: "nat \<Rightarrow> string" where
  "digits_of n =
     (if n < 10 then [char_of (48 + n)] else digits_of (n div 10) @ [char_of (48 + n mod 10)])"

declare digits_of.simps [simp del]

definition format_d :: "int \<Rightarrow> string" where
  "format_d v = (if v < 0 then CHR ''-'' # digits_of (nat (- v)) else digits_of (nat v))"

definition item_text :: "Item \<Rightarrow> string" where
  "item_text item =
     ''item '' @ it_name item @ [CHR 0x0A] @
     ''pane '' @ format_d (it_dock item) @ [CHR 0x0A] @
     ''x '' @ format_d (it_x item) @ [CHR 0x0A] @
     ''y '' @ format_d (it_y item) @ [CHR 0x0A] @
     ''w '' @ format_d (it_w item) @ [CHR 0x0A] @
     ''h '' @ format_d (it_h item) @ [CHR 0x0A]"



text \<open>
  The parser's two statics and the open file, of which \<open>handle\<close> is what is still to be
  read. After \<^verbatim>\<open>parse_next\<close> has put a 0 in place of the first space, \<^verbatim>\<open>parse_key\<close> reads
  as the text before it; \<^verbatim>\<open>parse_value\<close> points behind it.
\<close>

record parser =
  parse_key :: string
  parse_value :: "string option"
  handle :: string

text \<open>
  \<^verbatim>\<open>fgets (buf, n, handle)\<close>: \<^verbatim>\<open>NULL\<close> at the end of the file, else at most \<open>n - 1\<close>
  characters, up to and including the first line feed; with what is left of the file.
\<close>

fun fgets_line :: "nat \<Rightarrow> string \<Rightarrow> string" where
  "fgets_line 0 cs = []"
| "fgets_line (Suc k) [] = []"
| "fgets_line (Suc k) (c # cs) = (if c = CHR 0x0A then [c] else c # fgets_line k cs)"

definition fgets :: "nat \<Rightarrow> string \<Rightarrow> (string \<times> string) option" where
  "fgets n file =
     (if file = [] then None
      else (let line = fgets_line (n - 1) file in Some (line, drop (length line) file)))"

text \<open>A buffer read as a C string ends at its first 0 character.\<close>

definition c_str :: "string \<Rightarrow> string" where
  "c_str buf = takeWhile (\<lambda>c. c \<noteq> CHR 0x00) buf"

definition parse_next :: "parser \<Rightarrow> parser" where
  "parse_next p =
     (let p = p\<lparr>parse_value := None\<rparr> in
      case fgets 512 (handle p) of
        None \<Rightarrow> p
      | Some (line, rest) \<Rightarrow>
          (let buf = c_str line;
               p = p\<lparr>parse_key := buf, handle := rest\<rparr>
           in if CHR '' '' \<notin> set buf then p
              else p\<lparr>parse_key := takeWhile (\<lambda>c. c \<noteq> CHR '' '') buf,
                     parse_value := Some (takeWhile (\<lambda>c. c \<noteq> CHR 0x0A)
                                            (tl (dropWhile (\<lambda>c. c \<noteq> CHR '' '') buf)))\<rparr>))"

text \<open>
  \<^verbatim>\<open>sscanf (s, "%d", value) == 1\<close>: white space is skipped, a sign is optional, and at
  least one digit must follow; the digits are read as far as they go.
\<close>

definition isspace :: "char \<Rightarrow> bool" where
  "isspace c \<longleftrightarrow> c \<in> {CHR '' '', CHR 0x09, CHR 0x0A, CHR 0x0B, CHR 0x0C, CHR 0x0D}"

definition isdigit :: "char \<Rightarrow> bool" where
  "isdigit c \<longleftrightarrow> 48 \<le> (of_char c :: nat) \<and> (of_char c :: nat) \<le> 57"

definition digits_value :: "string \<Rightarrow> nat" where
  "digits_value ds = foldl (\<lambda>a c. 10 * a + (of_char c - 48)) 0 ds"

definition sscanf_d :: "string \<Rightarrow> int option" where
  "sscanf_d s =
     (let s = dropWhile isspace s;
          (neg, s) = (case s of
                        c # r \<Rightarrow> if c = CHR ''-'' then (True, r)
                                 else if c = CHR ''+'' then (False, r) else (False, s)
                      | [] \<Rightarrow> (False, s));
          ds = takeWhile isdigit s
      in if ds = [] then None
         else Some (if neg then - int (digits_value ds) else int (digits_value ds)))"

definition parse_integer :: "string \<Rightarrow> parser \<Rightarrow> int option" where
  "parse_integer key p =
     (case parse_value p of
        None \<Rightarrow> None
      | Some v \<Rightarrow> if parse_key p = key then sscanf_d v else None)"

definition parse_string :: "string \<Rightarrow> parser \<Rightarrow> string option" where
  "parse_string key p =
     (case parse_value p of
        None \<Rightarrow> None
      | Some v \<Rightarrow> if parse_key p = key then Some v else None)"

text \<open>
  One turn of the loop of \<^verbatim>\<open>layout_load\<close>: the flag says whether the loop goes on
  (\<open>False\<close> is a \<^verbatim>\<open>break\<close>). The item is appended as soon as its name has been read, and
  each field is written into it when it has been parsed.
\<close>

definition load_record :: "parser \<Rightarrow> Item list \<Rightarrow> bool \<times> parser \<times> Item list" where
  "load_record p its =
     (let p = parse_next p in
      case parse_string ''item'' p of
        None \<Rightarrow> (False, p, its)
      | Some name \<Rightarrow>
          (let (i, its) = item_new name its;
               p = parse_next p in
           case parse_integer ''pane'' p of
             None \<Rightarrow> (False, p, its)
           | Some v \<Rightarrow>
               (let its = its[i := (its ! i)\<lparr>it_dock := v\<rparr>];
                    p = parse_next p in
                case parse_integer ''x'' p of
                  None \<Rightarrow> (False, p, its)
                | Some v \<Rightarrow>
                    (let its = its[i := (its ! i)\<lparr>it_x := v\<rparr>];
                         p = parse_next p in
                     case parse_integer ''y'' p of
                       None \<Rightarrow> (False, p, its)
                     | Some v \<Rightarrow>
                         (let its = its[i := (its ! i)\<lparr>it_y := v\<rparr>];
                              p = parse_next p in
                          case parse_integer ''w'' p of
                            None \<Rightarrow> (False, p, its)
                          | Some v \<Rightarrow>
                              (let its = its[i := (its ! i)\<lparr>it_w := v\<rparr>];
                                   p = parse_next p in
                               case parse_integer ''h'' p of
                                 None \<Rightarrow> (False, p, its)
                               | Some v \<Rightarrow> (True, p, its[i := (its ! i)\<lparr>it_h := v\<rparr>])))))))"


text \<open>
  The loop of \<^verbatim>\<open>layout_load\<close>. Every turn that does not end the loop has read at least
  one character of the file.
\<close>

function layout_load_loop :: "parser \<Rightarrow> Item list \<Rightarrow> Item list" where
  "layout_load_loop p its =
     (case load_record p its of
        (True, p', its') \<Rightarrow> layout_load_loop p' its'
      | (False, p', its') \<Rightarrow> its')"
  by pat_completeness auto

lemma fgets_shorter: "fgets 512 fc = Some (line, rest) \<Longrightarrow> length rest < length fc"
proof -
  assume a: "fgets 512 fc = Some (line, rest)"
  then obtain c cs where f: "fc = c # cs" by (cases fc) (auto simp: fgets_def)
  have "fgets_line 511 (c # cs) \<noteq> []" by (simp add: numeral_eq_Suc)
  with a f show ?thesis by (auto simp: fgets_def Let_def)
qed

lemma parse_next_handle: "length (handle (parse_next p)) \<le> length (handle p)"
  by (auto simp: parse_next_def Let_def split: option.splits dest: fgets_shorter)

lemma parse_next_value:
  "parse_value (parse_next p) \<noteq> None \<Longrightarrow> length (handle (parse_next p)) < length (handle p)"
  by (auto simp: parse_next_def Let_def split: option.splits if_splits dest: fgets_shorter)

lemma load_record_shorter:
  assumes "load_record p its = (True, p', its')"
  shows "length (handle p') < length (handle p)"
proof -
  let ?p1 = "parse_next p"
  from assms have v: "parse_value ?p1 \<noteq> None"
    by (auto simp: load_record_def Let_def parse_string_def split: option.splits)
  from assms have "p' = parse_next (parse_next (parse_next (parse_next (parse_next ?p1))))"
    by (auto simp: load_record_def Let_def item_new_def split: option.splits prod.splits)
  then have "length (handle p') \<le> length (handle ?p1)"
    using parse_next_handle le_trans by metis
  with parse_next_value[OF v] show ?thesis by simp
qed

termination layout_load_loop
  by (relation "measure (\<lambda>(p, its). length (handle p))") (auto dest: load_record_shorter[OF sym])

declare layout_load_loop.simps [simp del]

text \<open>
  \<^verbatim>\<open>layout_load\<close>. What the parser's statics held before is never read: \<^verbatim>\<open>parse_next\<close>
  resets \<^verbatim>\<open>parse_value\<close>, and \<^verbatim>\<open>parse_key\<close> is compared only when \<^verbatim>\<open>parse_value\<close> is set.
\<close>

definition layout_load :: "layout_state \<Rightarrow> layout_state" where
  "layout_load s =
     (if items s \<noteq> [] then critical s
      else
        (case layout_file s of
           None \<Rightarrow> s
         | Some text \<Rightarrow>
             s\<lparr>items := layout_load_loop \<lparr>parse_key = [], parse_value = None, handle = text\<rparr> []\<rparr>))"

section \<open>ui_dock.c: properties\<close>

subsection \<open>Notions used to state the properties\<close>

text \<open>Window \<open>b\<close> is docked to window \<open>a\<close>: \<open>is_docked\<close> at their current geometry.\<close>

definition docked_to :: "display \<Rightarrow> GtkWindow \<Rightarrow> GtkWindow \<Rightarrow> bool" where
  "docked_to D a b =
     (case (win_pos D a, win_size D a, win_pos D b, win_size D b) of
        ((a_x, a_y), (a_w, a_h), (b_x, b_y), (b_w, b_h)) \<Rightarrow>
          is_docked a_x a_y a_w a_h b_x b_y b_w b_h)"

text \<open>The element \<open>get_docked_list\<close> appends for a window \<open>t\<close> found docked to \<open>w\<close>.\<close>

definition new_docked :: "display \<Rightarrow> GtkWindow \<Rightarrow> GtkWindow \<Rightarrow> int \<Rightarrow> int \<Rightarrow> DockedWindow" where
  "new_docked D w t init_off_x init_off_y =
     \<lparr>dw_w = t,
      dw_offset_x = gint_add (gint_sub (fst (win_pos D t)) (fst (win_pos D w))) init_off_x,
      dw_offset_y = gint_add (gint_sub (snd (win_pos D t)) (snd (win_pos D w))) init_off_y\<rparr>"

text \<open>
  The offsets of \<open>d\<close> are the position of its window relative to window \<open>g\<close>, as a
  \<^verbatim>\<open>gint\<close> holds the difference.
\<close>

definition offsets_from :: "display \<Rightarrow> GtkWindow \<Rightarrow> DockedWindow \<Rightarrow> bool" where
  "offsets_from D g d \<longleftrightarrow>
     dw_offset_x d = gint_sub (fst (win_pos D (dw_w d))) (fst (win_pos D g)) \<and>
     dw_offset_y d = gint_sub (snd (win_pos D (dw_w d))) (snd (win_pos D g))"

text \<open>Two windows each docked to the other, whichever is passed first to \<open>is_docked\<close>.\<close>

definition docked_both :: "display \<Rightarrow> GtkWindow \<Rightarrow> GtkWindow \<Rightarrow> bool" where
  "docked_both D a b \<longleftrightarrow> docked_to D a b \<and> docked_to D b a"

text \<open>A value that a \<^verbatim>\<open>gint\<close> can hold.\<close>

definition fits_gint :: "int \<Rightarrow> bool" where
  "fits_gint i \<longleftrightarrow> - 2147483648 \<le> i \<and> i \<le> 2147483647"

text \<open>Every candidate docked to \<open>a\<close> is in the docked list \<open>r\<close>.\<close>

definition flood_closed :: "display \<Rightarrow> GtkWindow list \<Rightarrow> DockedWindow list \<Rightarrow> GtkWindow \<Rightarrow> bool" where
  "flood_closed D wlist r a \<longleftrightarrow> (\<forall>t\<in>set wlist. docked_to D a t \<longrightarrow> t \<in> dw_w ` set r)"

text \<open>A row of three 10 by 10 windows side by side, window \<open>n\<close> at \<open>(10 n, 0)\<close>.\<close>

definition row_display :: display where
  "row_display = \<lparr>win_pos = (\<lambda>n. (10 * int n, 0)), win_size = (\<lambda>n. (10, 10)),
                   screen_width = 1000, screen_height = 1000\<rparr>"

text \<open>Four 10 by 10 windows in a 2 by 2 block.\<close>

definition block_display :: display where
  "block_display =
     \<lparr>win_pos = (\<lambda>n. if n = 0 then (0, 0) else if n = 1 then (10, 0)
                      else if n = 2 then (0, 10) else (10, 10)),
      win_size = (\<lambda>n. (10, 10)), screen_width = 1000, screen_height = 1000\<rparr>"


text \<open>Example states: no decorations, snapping within 10 pixels, the row of three windows.\<close>

definition snap_cfg :: skins_cfg where
  "snap_cfg = \<lparr>show_wm_decorations = False, snap_windows = True, snap_distance = 10,
                player_x = 0, player_y = 0, equalizer_x = 0, equalizer_y = 0,
                playlist_x = 0, playlist_y = 0\<rparr>"

definition idle_state :: dock_state where
  "idle_state = \<lparr>config = snap_cfg, disp = row_display,
                  skinned_type = (\<lambda>w. if w = 0 then WINDOW_MAIN else if w = 1 then WINDOW_EQ
                                       else WINDOW_PLAYLIST),
                  skinned_x = (\<lambda>w. 10 * int w), skinned_y = (\<lambda>w. 0), presented = [],
                  move_offset_x = (\<lambda>w. 0), move_offset_y = (\<lambda>w. 0),
                  docked_list = (\<lambda>w. []), window_list = (\<lambda>w. []), is_moving = (\<lambda>w. 0)\<rparr>"

text \<open>Window 1 is being dragged alone, grabbed at \<open>(7, 8)\<close>.\<close>

definition dragging_state :: dock_state where
  "dragging_state =
     idle_state\<lparr>presented := [1],
                move_offset_x := (move_offset_x idle_state)(1 := 7),
                move_offset_y := (move_offset_y idle_state)(1 := 8),
                docked_list := (docked_list idle_state)
                   (1 := [\<lparr>dw_w = 1, dw_offset_x = 0, dw_offset_y = 0\<rparr>]),
                window_list := (window_list idle_state)(1 := [0, 1, 2]),
                is_moving := (is_moving idle_state)(1 := 1)\<rparr>"

text \<open>Window 1 is being dragged with the two windows docked to it, grabbed at \<open>(3, 4)\<close>.\<close>

definition dragging_row_state :: dock_state where
  "dragging_row_state =
     idle_state\<lparr>presented := [1],
                move_offset_x := (move_offset_x idle_state)(1 := 3),
                move_offset_y := (move_offset_y idle_state)(1 := 4),
                docked_list := (docked_list idle_state)
                   (1 := [\<lparr>dw_w = 1, dw_offset_x = 0, dw_offset_y = 0\<rparr>,
                          \<lparr>dw_w = 0, dw_offset_x = - 10, dw_offset_y = 0\<rparr>,
                          \<lparr>dw_w = 2, dw_offset_x = 10, dw_offset_y = 0\<rparr>]),
                window_list := (window_list idle_state)(1 := [0, 1, 2]),
                is_moving := (is_moving idle_state)(1 := 1)\<rparr>"

text \<open>
  A 100 by 100 screen: window 0 is 99 wide and the others 30, all 50 high; window 2
  stands at \<open>(60, 0)\<close>.
\<close>

definition small_screen :: display where
  "small_screen = \<lparr>win_pos = (\<lambda>n. if n = 2 then (60, 0) else (0, 0)),
                    win_size = (\<lambda>n. if n = 0 then (99, 50) else (30, 50)),
                    screen_width = 100, screen_height = 100\<rparr>"

text \<open>
  Two windows near the largest \<^verbatim>\<open>gint\<close>: window 0 is 10 by 10 at \<open>(2147483642, 0)\<close>,
  window 1 is 1 by 10 at \<open>(2147483644, 10)\<close>, below window 0.
\<close>

definition far_display :: display where
  "far_display =
     \<lparr>win_pos = (\<lambda>n. if n = 0 then (2147483642, 0) else (2147483644, 10)),
      win_size = (\<lambda>n. if n = 0 then (10, 10) else (1, 10)),
      screen_width = 1000, screen_height = 1000\<rparr>"

section \<open>layout.c: properties\<close>

subsection \<open>Notions used to state the properties\<close>

text \<open>
  A name as \<^verbatim>\<open>layout_add\<close> accepts it (at most 256 characters, no line feed), being a C
  string (no 0 character); an item with such a name whose numbers a \<^verbatim>\<open>gint\<close> can hold.
\<close>

definition valid_name :: "string \<Rightarrow> bool" where
  "valid_name nm \<longleftrightarrow> length nm \<le> 256 \<and> CHR 0x0A \<notin> set nm \<and> CHR 0x00 \<notin> set nm"

definition item_storable :: "Item \<Rightarrow> bool" where
  "item_storable it \<longleftrightarrow>
     valid_name (it_name it) \<and> fits_gint (it_dock it) \<and> fits_gint (it_x it) \<and> fits_gint (it_y it) \<and>
     fits_gint (it_w it) \<and> fits_gint (it_h it)"

text \<open>An item without its widgets, as \<^verbatim>\<open>layout_load\<close> creates it; and what is persisted
  of an item.\<close>

definition placeholder :: "Item \<Rightarrow> Item" where
  "placeholder it = it\<lparr>it_widget := None, it_vbox := None, it_paned := None, it_window := None\<rparr>"


text \<open>
  A record cut short after its \<^verbatim>\<open>item\<close> line and the first \<open>length vs\<close> of the five
  number lines, and the item that \<^verbatim>\<open>item_new\<close> creates with the numbers \<open>vs\<close> written
  into it, in the order pane, x, y, w, h.
\<close>

definition field_keys :: "string list" where
  "field_keys = [''pane'', ''x'', ''y'', ''w'', ''h'']"

definition truncated_text :: "string \<Rightarrow> int list \<Rightarrow> string" where
  "truncated_text nm vs =
     ''item '' @ nm @ [CHR 0x0A] @
     concat (map (\<lambda>(k, v). k @ '' '' @ format_d v @ [CHR 0x0A]) (zip field_keys vs))"

definition partial_item :: "string \<Rightarrow> int list \<Rightarrow> Item" where
  "partial_item nm vs =
     \<lparr>it_name = nm, it_widget = None, it_vbox = None, it_paned = None, it_window = None,
      it_dock = (if 0 < length vs then vs ! 0 else - 1),
      it_x = (if 1 < length vs then vs ! 1 else - 1),
      it_y = (if 2 < length vs then vs ! 2 else - 1),
      it_w = (if 3 < length vs then vs ! 3 else 0),
      it_h = (if 4 < length vs then vs ! 4 else 0)\<rparr>"

text \<open>A line of the layout file: a key, a space, a value, a line feed.\<close>

definition text_line :: "string \<Rightarrow> string \<Rightarrow> string" where
  "text_line key val = key @ CHR '' '' # val @ [CHR 0x0A]"

text \<open>
  Example states. A toolkit with four widgets created (0 the layout, 1 its centre, 2 and
  3 two plugin widgets), in which every box is allocated 200 by 100 pixels and every
  window stands at \<open>(30, 40)\<close>; the layout with its centre and no item.
\<close>

definition sample_gtk :: gtk_world where
  "sample_gtk =
     \<lparr>g_fresh = 4, g_parent = (\<lambda>w. if w = 1 then Some 0 else None),
      g_children = (\<lambda>w. if w = 0 then [1] else []), g_mine = (\<lambda>w. None), g_next = (\<lambda>w. None),
      g_refs = (\<lambda>w. 0), g_allocation = (\<lambda>w. (200, 100)), g_position = (\<lambda>w. (30, 40)),
      g_moved = (\<lambda>w. None), g_default_size = (\<lambda>w. None), g_paned_position = (\<lambda>w. None),
      g_idle = []\<rparr>"

definition sample_layout :: layout_state where
  "sample_layout =
     \<lparr>items = [], layout = Some 0, center = Some 1, docks = [None, None, None, None],
      menu = None, gtk = sample_gtk, layout_file = None, criticals = 0, wild_index = 0\<rparr>"

text \<open>A layout file whose second record lacks its \<^verbatim>\<open>h\<close> line.\<close>

definition cut_file :: string where
  "cut_file = ''item a\<newline>pane 0\<newline>x 1\<newline>y 2\<newline>w 3\<newline>h 4\<newline>item b\<newline>pane 1\<newline>x 5\<newline>y 6\<newline>w 7\<newline>''"



text \<open>A layout file with a pane value of -2, and the layout that has loaded it.\<close>

definition odd_file :: string where
  "odd_file = ''item a\<newline>pane -2\<newline>x 10\<newline>y 20\<newline>w 300\<newline>h 200\<newline>''"

definition odd_layout :: layout_state where
  "odd_layout = layout_load (sample_layout\<lparr>layout_file := Some odd_file\<rparr>)"

subsection \<open>Arithmetic of gint\<close>

lemma gint_of_fits: "fits_gint i \<Longrightarrow> gint_of i = i"
  by (simp add: gint_of_def fits_gint_def)

lemma gint_of_zero: "gint_of 0 = 0"
  by (simp add: gint_of_def)

lemma gint_sub_self: "gint_sub a a = 0"
  by (simp add: gint_sub_def gint_of_zero)

lemma wrap_add_left:
  "((a + k) mod m - k + b + k) mod m = (a + b + k) mod (m :: int)"
proof -
  have "(a + k) mod m - k + b + k = (a + k) mod m + b" by simp
  then have "((a + k) mod m - k + b + k) mod m = ((a + k) mod m + b) mod m" by simp
  also have "\<dots> = (a + k + b) mod m" by (rule mod_add_left_eq)
  also have "a + k + b = a + b + k" by simp
  finally show ?thesis .
qed

lemma gint_of_add_left: "gint_of (gint_of a + b) = gint_of (a + b)"
  unfolding gint_of_def by (simp only: wrap_add_left)

lemma gint_of_add_right: "gint_of (a + gint_of b) = gint_of (a + b)"
  using gint_of_add_left[of b a] by (simp add: add.commute)

lemma gint_sub_chain: "gint_add (gint_sub a b) (gint_sub b c) = gint_sub a c"
  unfolding gint_add_def gint_sub_def by (simp add: gint_of_add_left gint_of_add_right)

subsection \<open>The traversal of get_docked_list\<close>

lemma find_custom_docked:
  "(g_list_find_custom dlist \<lparr>dw_w = t, dw_offset_x = a, dw_offset_y = b\<rparr> docked_list_compare = None)
     = (t \<notin> dw_w ` set dlist)"
  by (auto simp: g_list_find_custom_def docked_list_compare_def find_None_iff)

lemma scan_Cons:
  "get_docked_scan fuel D dlist wlist (t # node) w iox ioy =
     (if t \<in> dw_w ` set dlist then get_docked_scan fuel D dlist wlist node w iox ioy
      else if docked_to D w t
      then (case get_docked_list fuel D (dlist @ [new_docked D w t iox ioy]) wlist t
                   (dw_offset_x (new_docked D w t iox ioy)) (dw_offset_y (new_docked D w t iox ioy)) of
              None \<Rightarrow> None
            | Some dlist' \<Rightarrow> get_docked_scan fuel D dlist' wlist node w iox ioy)
      else get_docked_scan fuel D dlist wlist node w iox ioy)"
  by (simp add: find_custom_docked docked_to_def new_docked_def split: prod.splits)

lemma list_Suc:
  "get_docked_list (Suc fuel) D dlist wlist w iox ioy =
     get_docked_scan fuel D
       (if dlist = [] then [\<lparr>dw_w = w, dw_offset_x = 0, dw_offset_y = 0\<rparr>] else dlist)
       wlist wlist w iox ioy"
  by simp

lemma list_numeral:
  "get_docked_list (numeral k) D dlist wlist w iox ioy =
     get_docked_scan (pred_numeral k) D
       (if dlist = [] then [\<lparr>dw_w = w, dw_offset_x = 0, dw_offset_y = 0\<rparr>] else dlist)
       wlist wlist w iox ioy"
  by (simp add: numeral_eq_Suc)

declare get_docked_scan.simps(2) [simp del]
declare get_docked_list.simps(2) [simp del]

text \<open>The docked list only grows, at its end.\<close>

lemma scan_grows_aux:
  assumes G: "\<And>dlist w iox ioy r. dlist \<noteq> [] \<Longrightarrow> get_docked_list fuel D dlist wlist w iox ioy = Some r
                 \<Longrightarrow> \<exists>ext. r = dlist @ ext"
  shows "dlist \<noteq> [] \<Longrightarrow> get_docked_scan fuel D dlist wlist node w iox ioy = Some r \<Longrightarrow> \<exists>ext. r = dlist @ ext"
proof (induction node arbitrary: dlist)
  case Nil
  then show ?case by simp
next
  case (Cons t node)
  show ?case
  proof (cases "t \<notin> dw_w ` set dlist \<and> docked_to D w t")
    case False
    with Cons show ?thesis by (auto simp: scan_Cons split: if_splits)
  next
    case True
    let ?d = "new_docked D w t iox ioy"
    from True Cons.prems obtain d' where
      g: "get_docked_list fuel D (dlist @ [?d]) wlist t (dw_offset_x ?d) (dw_offset_y ?d) = Some d'"
      and s: "get_docked_scan fuel D d' wlist node w iox ioy = Some r"
      by (auto simp: scan_Cons split: option.splits)
    from G[OF _ g] obtain e1 where e1: "d' = (dlist @ [?d]) @ e1" by auto
    then have "d' \<noteq> []" by simp
    from Cons.IH[OF this s] obtain e2 where "r = d' @ e2" by auto
    with e1 show ?thesis by simp
  qed
qed

lemma list_grows:
  "dlist \<noteq> [] \<Longrightarrow> get_docked_list fuel D dlist wlist w iox ioy = Some r \<Longrightarrow> \<exists>ext. r = dlist @ ext"
proof (induction fuel arbitrary: dlist w iox ioy r)
  case 0
  then show ?case by simp
next
  case (Suc fuel)
  from Suc.prems have "get_docked_scan fuel D dlist wlist wlist w iox ioy = Some r"
    by (simp add: list_Suc)
  from scan_grows_aux[OF Suc.IH Suc.prems(1) this] show ?case by simp
qed

lemma scan_grows:
  assumes "dlist \<noteq> []" "get_docked_scan fuel D dlist wlist node w iox ioy = Some r"
  shows "\<exists>ext. r = dlist @ ext"
proof -
  have G: "\<And>dlist w iox ioy r. dlist \<noteq> [] \<Longrightarrow> get_docked_list fuel D dlist wlist w iox ioy = Some r
             \<Longrightarrow> \<exists>ext. r = dlist @ ext"
    by (rule list_grows)
  from scan_grows_aux[OF G assms] show ?thesis .
qed


text \<open>A window is appended only when it is not in the list yet.\<close>

lemma scan_distinct_aux:
  assumes G: "\<And>dlist w iox ioy r. dlist \<noteq> [] \<Longrightarrow> distinct (map dw_w dlist) \<Longrightarrow>
                 get_docked_list fuel D dlist wlist w iox ioy = Some r \<Longrightarrow> distinct (map dw_w r)"
  shows "dlist \<noteq> [] \<Longrightarrow> distinct (map dw_w dlist) \<Longrightarrow>
           get_docked_scan fuel D dlist wlist node w iox ioy = Some r \<Longrightarrow> distinct (map dw_w r)"
proof (induction node arbitrary: dlist)
  case Nil
  then show ?case by simp
next
  case (Cons t node)
  show ?case
  proof (cases "t \<notin> dw_w ` set dlist \<and> docked_to D w t")
    case False
    with Cons show ?thesis by (auto simp: scan_Cons split: if_splits)
  next
    case True
    let ?d = "new_docked D w t iox ioy"
    from True Cons.prems obtain d' where
      g: "get_docked_list fuel D (dlist @ [?d]) wlist t (dw_offset_x ?d) (dw_offset_y ?d) = Some d'"
      and s: "get_docked_scan fuel D d' wlist node w iox ioy = Some r"
      by (auto simp: scan_Cons split: option.splits)
    from True Cons.prems(2) have "distinct (map dw_w (dlist @ [?d]))"
      by (auto simp: new_docked_def)
    from G[OF _ this g] have d: "distinct (map dw_w d')" by simp
    from list_grows[OF _ g] have "d' \<noteq> []" by auto
    from Cons.IH[OF this d s] show ?thesis .
  qed
qed

lemma list_distinct:
  "distinct (map dw_w dlist) \<Longrightarrow> get_docked_list fuel D dlist wlist w iox ioy = Some r
     \<Longrightarrow> distinct (map dw_w r)"
proof (induction fuel arbitrary: dlist w iox ioy r)
  case 0
  then show ?case by simp
next
  case (Suc fuel)
  let ?d0 = "if dlist = [] then [\<lparr>dw_w = w, dw_offset_x = 0, dw_offset_y = 0\<rparr>] else dlist"
  from Suc.prems have s: "get_docked_scan fuel D ?d0 wlist wlist w iox ioy = Some r"
    by (simp add: list_Suc)
  have ne: "?d0 \<noteq> []" by simp
  from Suc.prems(1) have di: "distinct (map dw_w ?d0)" by simp
  from scan_distinct_aux[OF Suc.IH ne di s] show ?case by simp
qed

text \<open>Offsets are positions relative to the window the traversal started from.\<close>

lemma scan_offsets_aux:
  assumes G: "\<And>dlist w iox ioy r. dlist \<noteq> [] \<Longrightarrow> list_all (offsets_from D g) dlist \<Longrightarrow>
                 iox = gint_sub (fst (win_pos D w)) (fst (win_pos D g)) \<Longrightarrow>
                 ioy = gint_sub (snd (win_pos D w)) (snd (win_pos D g)) \<Longrightarrow>
                 get_docked_list fuel D dlist wlist w iox ioy = Some r \<Longrightarrow> list_all (offsets_from D g) r"
  shows "dlist \<noteq> [] \<Longrightarrow> list_all (offsets_from D g) dlist \<Longrightarrow>
           iox = gint_sub (fst (win_pos D w)) (fst (win_pos D g)) \<Longrightarrow>
           ioy = gint_sub (snd (win_pos D w)) (snd (win_pos D g)) \<Longrightarrow>
           get_docked_scan fuel D dlist wlist node w iox ioy = Some r \<Longrightarrow> list_all (offsets_from D g) r"
proof (induction node arbitrary: dlist)
  case Nil
  then show ?case by simp
next
  case (Cons t node)
  show ?case
  proof (cases "t \<notin> dw_w ` set dlist \<and> docked_to D w t")
    case False
    with Cons show ?thesis by (auto simp: scan_Cons split: if_splits)
  next
    case True
    let ?d = "new_docked D w t iox ioy"
    from True Cons.prems obtain d' where
      g: "get_docked_list fuel D (dlist @ [?d]) wlist t (dw_offset_x ?d) (dw_offset_y ?d) = Some d'"
      and s: "get_docked_scan fuel D d' wlist node w iox ioy = Some r"
      by (auto simp: scan_Cons split: option.splits)
    from Cons.prems(3,4) have o: "offsets_from D g ?d"
      by (simp add: new_docked_def offsets_from_def gint_sub_chain)
    with Cons.prems(2) have a: "list_all (offsets_from D g) (dlist @ [?d])" by simp
    from o have x: "dw_offset_x ?d = gint_sub (fst (win_pos D t)) (fst (win_pos D g))"
      and y: "dw_offset_y ?d = gint_sub (snd (win_pos D t)) (snd (win_pos D g))"
      by (simp_all add: offsets_from_def new_docked_def)
    from G[OF _ a x y g] have d: "list_all (offsets_from D g) d'" by simp
    from list_grows[OF _ g] have "d' \<noteq> []" by auto
    from Cons.IH[OF this d Cons.prems(3,4) s] show ?thesis .
  qed
qed

lemma list_offsets:
  "dlist \<noteq> [] \<Longrightarrow> list_all (offsets_from D g) dlist \<Longrightarrow>
   iox = gint_sub (fst (win_pos D w)) (fst (win_pos D g)) \<Longrightarrow>
   ioy = gint_sub (snd (win_pos D w)) (snd (win_pos D g)) \<Longrightarrow>
   get_docked_list fuel D dlist wlist w iox ioy = Some r \<Longrightarrow> list_all (offsets_from D g) r"
proof (induction fuel arbitrary: dlist w iox ioy r)
  case 0
  then show ?case by simp
next
  case (Suc fuel)
  from Suc.prems have s: "get_docked_scan fuel D dlist wlist wlist w iox ioy = Some r"
    by (simp add: list_Suc)
  from scan_offsets_aux[OF Suc.IH Suc.prems(1,2,3,4) s] show ?case by simp
qed

lemma list_offsets_top:
  assumes "get_docked_list fuel D [] wlist w 0 0 = Some r"
  shows "list_all (offsets_from D w) r"
proof (cases fuel)
  case 0
  with assms show ?thesis by simp
next
  case (Suc n)
  let ?d0 = "[\<lparr>dw_w = w, dw_offset_x = 0, dw_offset_y = 0\<rparr>]"
  from assms Suc have "get_docked_scan n D ?d0 wlist wlist w 0 0 = Some r"
    by (simp add: list_Suc)
  then have "get_docked_list fuel D ?d0 wlist w 0 0 = Some r"
    using Suc by (simp add: list_Suc)
  moreover have "list_all (offsets_from D w) ?d0" by (simp add: offsets_from_def gint_sub_self)
  ultimately show ?thesis
    using list_offsets[of ?d0 D w 0 w 0 fuel wlist r] by (simp add: gint_sub_self)
qed


text \<open>Every window the traversal appended has had its own neighbours collected.\<close>

lemma flood_closed_mono: "flood_closed D wlist r a \<Longrightarrow> flood_closed D wlist (r @ ext) a"
  by (auto simp: flood_closed_def)

lemma scan_closed_aux:
  assumes G: "\<And>dlist w iox ioy r. dlist \<noteq> [] \<Longrightarrow>
                 get_docked_list fuel D dlist wlist w iox ioy = Some r \<Longrightarrow>
                 (\<forall>a\<in>dw_w ` set r - dw_w ` set dlist. flood_closed D wlist r a) \<and> flood_closed D wlist r w"
  shows "dlist \<noteq> [] \<Longrightarrow> get_docked_scan fuel D dlist wlist node w iox ioy = Some r \<Longrightarrow>
           (\<forall>a\<in>dw_w ` set r - dw_w ` set dlist. flood_closed D wlist r a) \<and>
           (\<forall>t\<in>set node. docked_to D w t \<longrightarrow> t \<in> dw_w ` set r)"
proof (induction node arbitrary: dlist)
  case Nil
  then show ?case by simp
next
  case (Cons t node)
  show ?case
  proof (cases "t \<notin> dw_w ` set dlist \<and> docked_to D w t")
    case False
    then have s: "get_docked_scan fuel D dlist wlist node w iox ioy = Some r"
      using Cons.prems by (auto simp: scan_Cons split: if_splits)
    from Cons.IH[OF Cons.prems(1) s] have ih:
      "\<forall>a\<in>dw_w ` set r - dw_w ` set dlist. flood_closed D wlist r a"
      "\<forall>t\<in>set node. docked_to D w t \<longrightarrow> t \<in> dw_w ` set r" by auto
    from scan_grows[OF Cons.prems(1) s] have "dw_w ` set dlist \<subseteq> dw_w ` set r" by auto
    with False ih show ?thesis by auto
  next
    case True
    let ?d = "new_docked D w t iox ioy"
    from True Cons.prems obtain d' where
      g: "get_docked_list fuel D (dlist @ [?d]) wlist t (dw_offset_x ?d) (dw_offset_y ?d) = Some d'"
      and s: "get_docked_scan fuel D d' wlist node w iox ioy = Some r"
      by (auto simp: scan_Cons split: option.splits)
    from list_grows[OF _ g] obtain e1 where e1: "d' = (dlist @ [?d]) @ e1" by auto
    then have ne: "d' \<noteq> []" by simp
    from scan_grows[OF ne s] obtain e2 where e2: "r = d' @ e2" by auto
    from G[OF _ g] have g1: "\<forall>a\<in>dw_w ` set d' - dw_w ` set (dlist @ [?d]). flood_closed D wlist d' a"
      and g2: "flood_closed D wlist d' t" by auto
    from Cons.IH[OF ne s] have ih:
      "\<forall>a\<in>dw_w ` set r - dw_w ` set d'. flood_closed D wlist r a"
      "\<forall>t\<in>set node. docked_to D w t \<longrightarrow> t \<in> dw_w ` set r" by auto
    have t_in: "t \<in> dw_w ` set r" using e1 e2 by (auto simp: new_docked_def)
    have "flood_closed D wlist r a" if a: "a \<in> dw_w ` set r - dw_w ` set dlist" for a
    proof (cases "a \<in> dw_w ` set d'")
      case False
      with a ih(1) show ?thesis by auto
    next
      case True
      have "flood_closed D wlist d' a"
      proof (cases "a = t")
        case True
        with g2 show ?thesis by simp
      next
        case False
        with a True have "a \<in> dw_w ` set d' - dw_w ` set (dlist @ [?d])"
          by (auto simp: new_docked_def)
        with g1 show ?thesis by blast
      qed
      then show ?thesis unfolding e2 by (rule flood_closed_mono)
    qed
    with ih(2) t_in show ?thesis by auto
  qed
qed

lemma list_closed:
  "dlist \<noteq> [] \<Longrightarrow> get_docked_list fuel D dlist wlist w iox ioy = Some r \<Longrightarrow>
     (\<forall>a\<in>dw_w ` set r - dw_w ` set dlist. flood_closed D wlist r a) \<and> flood_closed D wlist r w"
proof (induction fuel arbitrary: dlist w iox ioy r)
  case 0
  then show ?case by simp
next
  case (Suc fuel)
  from Suc.prems have s: "get_docked_scan fuel D dlist wlist wlist w iox ioy = Some r"
    by (simp add: list_Suc)
  from scan_closed_aux[OF Suc.IH Suc.prems(1) s] show ?case
    by (auto simp: flood_closed_def)
qed

lemma list_closed_top:
  assumes "get_docked_list fuel D [] wlist w 0 0 = Some r"
  shows "w \<in> dw_w ` set r \<and> (\<forall>a\<in>dw_w ` set r. flood_closed D wlist r a)"
proof (cases fuel)
  case 0
  with assms show ?thesis by simp
next
  case (Suc n)
  let ?d0 = "[\<lparr>dw_w = w, dw_offset_x = 0, dw_offset_y = 0\<rparr>]"
  from assms Suc have g: "get_docked_list fuel D ?d0 wlist w 0 0 = Some r"
    by (simp add: list_Suc)
  from list_grows[OF _ g] have w: "w \<in> dw_w ` set r" by auto
  from list_closed[OF _ g] have
    "\<forall>a\<in>dw_w ` set r - {w}. flood_closed D wlist r a" "flood_closed D wlist r w" by auto
  with w show ?thesis by auto
qed

text \<open>The recursion is never deeper than the number of candidates not yet listed.\<close>

lemma scan_fuel_aux:
  assumes G: "\<And>dlist w iox ioy. dlist \<noteq> [] \<Longrightarrow> card (set wlist - dw_w ` set dlist) < fuel \<Longrightarrow>
                 get_docked_list fuel D dlist wlist w iox ioy \<noteq> None"
  shows "dlist \<noteq> [] \<Longrightarrow> set node \<subseteq> set wlist \<Longrightarrow> card (set wlist - dw_w ` set dlist) \<le> fuel \<Longrightarrow>
           get_docked_scan fuel D dlist wlist node w iox ioy \<noteq> None"
proof (induction node arbitrary: dlist)
  case Nil
  then show ?case by simp
next
  case (Cons t node)
  show ?case
  proof (cases "t \<notin> dw_w ` set dlist \<and> docked_to D w t")
    case False
    with Cons show ?thesis by (auto simp: scan_Cons)
  next
    case True
    let ?d = "new_docked D w t iox ioy"
    from True Cons.prems(2) have "t \<in> set wlist - dw_w ` set dlist" by auto
    moreover have "set wlist - dw_w ` set (dlist @ [?d]) = (set wlist - dw_w ` set dlist) - {t}"
      by (auto simp: new_docked_def)
    ultimately have "card (set wlist - dw_w ` set (dlist @ [?d])) < card (set wlist - dw_w ` set dlist)"
      using card_Diff1_less[of "set wlist - dw_w ` set dlist" t] by simp
    with Cons.prems(3) have "card (set wlist - dw_w ` set (dlist @ [?d])) < fuel" by simp
    from G[OF _ this] obtain d' where
      g: "get_docked_list fuel D (dlist @ [?d]) wlist t (dw_offset_x ?d) (dw_offset_y ?d) = Some d'"
      by fastforce
    from list_grows[OF _ g] obtain e1 where e1: "d' = (dlist @ [?d]) @ e1" by auto
    then have ne: "d' \<noteq> []" by simp
    have "set wlist - dw_w ` set d' \<subseteq> set wlist - dw_w ` set dlist" using e1 by auto
    then have "card (set wlist - dw_w ` set d') \<le> card (set wlist - dw_w ` set dlist)"
      by (simp add: card_mono)
    with Cons.prems(3) have c: "card (set wlist - dw_w ` set d') \<le> fuel" by simp
    from Cons.prems(2) have "set node \<subseteq> set wlist" by simp
    from Cons.IH[OF ne this c] True g show ?thesis by (simp add: scan_Cons)
  qed
qed

lemma list_fuel:
  "dlist \<noteq> [] \<Longrightarrow> card (set wlist - dw_w ` set dlist) < fuel \<Longrightarrow>
     get_docked_list fuel D dlist wlist w iox ioy \<noteq> None"
proof (induction fuel arbitrary: dlist w iox ioy)
  case 0
  then show ?case by simp
next
  case (Suc fuel)
  from Suc.prems(2) have "card (set wlist - dw_w ` set dlist) \<le> fuel" by simp
  from scan_fuel_aux[OF Suc.IH Suc.prems(1) _ this, of wlist w iox ioy] Suc.prems(1)
  show ?case by (simp add: list_Suc)
qed

lemma list_fuel_top:
  assumes "length wlist < fuel"
  shows "get_docked_list fuel D [] wlist w 0 0 \<noteq> None"
proof -
  let ?d0 = "[\<lparr>dw_w = w, dw_offset_x = 0, dw_offset_y = 0\<rparr>]"
  obtain n where n: "fuel = Suc n" using assms by (cases fuel) auto
  have "card (set wlist - dw_w ` set ?d0) \<le> card (set wlist)"
    by (simp add: card_mono)
  also have "\<dots> \<le> length wlist" by (rule card_length)
  finally have "card (set wlist - dw_w ` set ?d0) < fuel" using assms by simp
  from list_fuel[OF _ this, of D w 0 0] show ?thesis
    by (simp add: n list_Suc)
qed

text \<open>A larger bound changes nothing once the traversal has returned.\<close>

lemma scan_mono_aux:
  assumes G: "\<And>dlist w iox ioy r. get_docked_list fuel D dlist wlist w iox ioy = Some r \<Longrightarrow>
                 get_docked_list (Suc fuel) D dlist wlist w iox ioy = Some r"
  shows "get_docked_scan fuel D dlist wlist node w iox ioy = Some r \<Longrightarrow>
           get_docked_scan (Suc fuel) D dlist wlist node w iox ioy = Some r"
proof (induction node arbitrary: dlist)
  case Nil
  then show ?case by simp
next
  case (Cons t node)
  show ?case
  proof (cases "t \<notin> dw_w ` set dlist \<and> docked_to D w t")
    case False
    with Cons show ?thesis by (auto simp: scan_Cons split: if_splits)
  next
    case True
    let ?d = "new_docked D w t iox ioy"
    from True Cons.prems obtain d' where
      g: "get_docked_list fuel D (dlist @ [?d]) wlist t (dw_offset_x ?d) (dw_offset_y ?d) = Some d'"
      and s: "get_docked_scan fuel D d' wlist node w iox ioy = Some r"
      by (auto simp: scan_Cons split: option.splits)
    from G[OF g] Cons.IH[OF s] True show ?thesis by (simp add: scan_Cons)
  qed
qed

lemma list_mono_Suc:
  "get_docked_list fuel D dlist wlist w iox ioy = Some r \<Longrightarrow>
     get_docked_list (Suc fuel) D dlist wlist w iox ioy = Some r"
proof (induction fuel arbitrary: dlist w iox ioy r)
  case 0
  then show ?case by simp
next
  case (Suc fuel)
  from Suc.prems have
    "get_docked_scan fuel D (if dlist = [] then [\<lparr>dw_w = w, dw_offset_x = 0, dw_offset_y = 0\<rparr>] else dlist)
        wlist wlist w iox ioy = Some r"
    by (simp add: list_Suc)
  from scan_mono_aux[OF Suc.IH this] show ?case by (simp add: list_Suc)
qed

lemma list_mono:
  "get_docked_list fuel D dlist wlist w iox ioy = Some r \<Longrightarrow> fuel \<le> fuel' \<Longrightarrow>
     get_docked_list fuel' D dlist wlist w iox ioy = Some r"
  by (induction fuel' ) (auto simp: le_Suc_eq dest: list_mono_Suc)

lemma list_total:
  "\<exists>r. \<forall>fuel. length wlist < fuel \<longrightarrow> get_docked_list fuel D [] wlist w 0 0 = Some r"
proof -
  from list_fuel_top[of wlist "Suc (length wlist)" D w] obtain r where
    r: "get_docked_list (Suc (length wlist)) D [] wlist w 0 0 = Some r" by auto
  have "get_docked_list fuel D [] wlist w 0 0 = Some r" if "length wlist < fuel" for fuel
    using list_mono[OF r, of fuel] that by simp
  then show ?thesis by blast
qed

subsection \<open>Adjacency without overflow, and chains\<close>

lemma is_docked_no_wrap:
  assumes "fits_gint (a_x + a_w)" "fits_gint (b_x + b_w)" "fits_gint (a_y + a_h)"
    "fits_gint (b_y + b_h)" "fits_gint (a_x - b_w)"
  shows "is_docked a_x a_y a_w a_h b_x b_y b_w b_h \<longleftrightarrow>
           (((a_x = b_x + b_w) \<or> (a_x + a_w = b_x)) \<and> (b_y + b_h \<ge> a_y) \<and> (b_y \<le> a_y + a_h)) \<or>
           (((a_y = b_y + b_h) \<or> (a_y + a_h = b_y)) \<and> (b_x \<ge> a_x - b_w) \<and> (b_x \<le> a_x + a_w))"
  unfolding is_docked_def gint_add_def gint_sub_def
  by (simp only: gint_of_fits[OF assms(1)] gint_of_fits[OF assms(2)] gint_of_fits[OF assms(3)]
        gint_of_fits[OF assms(4)] gint_of_fits[OF assms(5)]) simp

lemma chain_forward:
  assumes step: "\<And>a b. a \<in> S \<Longrightarrow> R a b \<Longrightarrow> b \<in> U \<Longrightarrow> b \<in> S"
  shows "successively R (x # xs) \<Longrightarrow> x \<in> S \<Longrightarrow> set xs \<subseteq> U \<Longrightarrow> set xs \<subseteq> S"
proof (induction xs arbitrary: x)
  case Nil
  then show ?case by simp
next
  case (Cons y ys)
  from Cons.prems have "R x y" and tl: "successively R (y # ys)" by simp_all
  with Cons.prems step have "y \<in> S" by simp
  from Cons.IH[OF tl this] Cons.prems(3) \<open>y \<in> S\<close> show ?case by simp
qed

lemma chain_backward:
  assumes step: "\<And>a b. a \<in> S \<Longrightarrow> R b a \<Longrightarrow> b \<in> U \<Longrightarrow> b \<in> S"
  shows "successively R (ys @ [x]) \<Longrightarrow> x \<in> S \<Longrightarrow> set ys \<subseteq> U \<Longrightarrow> set ys \<subseteq> S"
proof (induction ys)
  case Nil
  then show ?case by simp
next
  case (Cons y ys)
  from Cons.prems(1) have tl: "successively R (ys @ [x])" and r: "R y (hd (ys @ [x]))"
    by (simp_all add: successively_Cons)
  from Cons.IH[OF tl Cons.prems(2)] Cons.prems(3) have sub: "set ys \<subseteq> S" by simp
  with Cons.prems(2) have "hd (ys @ [x]) \<in> S" by (cases ys) auto
  from step[OF this r] Cons.prems(3) have "y \<in> S" by simp
  with sub show ?case by simp
qed

lemma chain_reached:
  assumes fwd: "\<And>a b. a \<in> S \<Longrightarrow> R a b \<Longrightarrow> b \<in> U \<Longrightarrow> b \<in> S"
    and bwd: "\<And>a b. a \<in> S \<Longrightarrow> R b a \<Longrightarrow> b \<in> U \<Longrightarrow> b \<in> S"
    and chain: "successively R xs" and sub: "set xs \<subseteq> U" and mem: "x \<in> set xs" and x: "x \<in> S"
  shows "set xs \<subseteq> S"
proof -
  from mem obtain ys zs where xs: "xs = ys @ x # zs" by (auto simp: in_set_conv_decomp)
  with chain have c1: "successively R (x # zs)" and c2: "successively R (ys @ [x])"
    by (auto simp: successively_append_iff successively_Cons)
  from sub xs have u1: "set zs \<subseteq> U" and u2: "set ys \<subseteq> U" by auto
  have "set zs \<subseteq> S"
  proof (rule chain_forward[OF _ c1 x u1])
    fix a b assume "a \<in> S" "R a b" "b \<in> U"
    then show "b \<in> S" by (rule fwd)
  qed
  moreover have "set ys \<subseteq> S"
  proof (rule chain_backward[OF _ c2 x u2])
    fix a b assume "a \<in> S" "R b a" "b \<in> U"
    then show "b \<in> S" by (rule bwd)
  qed
  ultimately show ?thesis using x xs by simp
qed

subsection \<open>Claims on adjacency and the docked list\<close>

text \<open>
  Claim C3, as the code has it. The edge-adjacency predicate is symmetric for all
  rectangles \<open>A = (a_x, a_y, a_w, a_h)\<close> and \<open>B = (b_x, b_y, b_w, b_h)\<close> whose edge
  coordinates a \<^verbatim>\<open>gint\<close> can hold, that is, whose sums \<open>a_x + a_w\<close>, \<open>b_x + b_w\<close>,
  \<open>a_y + a_h\<close>, \<open>b_y + b_h\<close> and differences \<open>a_x - b_w\<close>, \<open>b_x - a_w\<close> do not overflow:
  for these, \<open>is_docked\<close> of \<open>A\<close> and \<open>B\<close> holds if and only if \<open>is_docked\<close> of \<open>B\<close>
  and \<open>A\<close> holds.
\<close>

theorem is_docked_symmetric_no_overflow:
  assumes "fits_gint (a_x + a_w)" and "fits_gint (b_x + b_w)" and "fits_gint (a_y + a_h)"
    and "fits_gint (b_y + b_h)" and "fits_gint (a_x - b_w)" and "fits_gint (b_x - a_w)"
  shows "is_docked a_x a_y a_w a_h b_x b_y b_w b_h \<longleftrightarrow> is_docked b_x b_y b_w b_h a_x a_y a_w a_h"
proof -
  have ab: "is_docked a_x a_y a_w a_h b_x b_y b_w b_h \<longleftrightarrow>
           (((a_x = b_x + b_w) \<or> (a_x + a_w = b_x)) \<and> (b_y + b_h \<ge> a_y) \<and> (b_y \<le> a_y + a_h)) \<or>
           (((a_y = b_y + b_h) \<or> (a_y + a_h = b_y)) \<and> (b_x \<ge> a_x - b_w) \<and> (b_x \<le> a_x + a_w))"
    by (rule is_docked_no_wrap[OF assms(1,2,3,4,5)])
  have ba: "is_docked b_x b_y b_w b_h a_x a_y a_w a_h \<longleftrightarrow>
           (((b_x = a_x + a_w) \<or> (b_x + b_w = a_x)) \<and> (a_y + a_h \<ge> b_y) \<and> (a_y \<le> b_y + b_h)) \<or>
           (((b_y = a_y + a_h) \<or> (b_y + b_h = a_y)) \<and> (a_x \<ge> b_x - a_w) \<and> (a_x \<le> b_x + b_w))"
    by (rule is_docked_no_wrap[OF assms(2,1,4,3,6)])
  show ?thesis unfolding ab ba by auto
qed

text \<open>
  An instance: a window at the origin and one abutting its bottom right corner are
  docked in both orders.
\<close>

theorem is_docked_symmetric_no_overflow_witness:
  "fits_gint (0 + 10) \<and> fits_gint (10 + 5) \<and> fits_gint (0 - 5) \<and> fits_gint (10 - 10) \<and>
   is_docked 0 0 10 10 10 10 5 5 \<and> is_docked 10 10 5 5 0 0 10 10"
proof -
  have f: "fits_gint (0 + 10)" "fits_gint (10 + 5)" "fits_gint (0 - 5)" "fits_gint (10 - 10)"
    by (simp_all add: fits_gint_def)
  have d: "is_docked 0 0 10 10 10 10 5 5"
    by (simp add: is_docked_def gint_add_def gint_sub_def gint_of_fits fits_gint_def)
  from is_docked_symmetric_no_overflow[of 0 10 10 5 0 10 10 5, OF f(1,2,1,2,3,4)] d f
  show ?thesis by simp
qed

text \<open>
  The claim as the specification words it, for all rectangles, fails where a sum
  overflows. \<open>A\<close> is 10 by 10 at \<open>(2147483642, 0)\<close> and \<open>B\<close> is 1 by 10 at
  \<open>(2147483644, 10)\<close>, right below \<open>A\<close>: \<open>a_x + a_w\<close> wraps to \<open>- 2147483644\<close>, the
  test \<open>b_x \<le> a_x + a_w\<close> fails, and \<open>B\<close> is not docked to \<open>A\<close>; in the other order
  the tests are \<open>a_x \<ge> b_x - a_w\<close> and \<open>a_x \<le> b_x + b_w\<close>, which hold.
\<close>

theorem is_docked_symmetric_counterexample:
  "\<not> is_docked 2147483642 0 10 10 2147483644 10 1 10 \<and>
   is_docked 2147483644 10 1 10 2147483642 0 10 10"
  by (simp add: is_docked_def gint_add_def gint_sub_def gint_of_def)

text \<open>
  Claim C4, as the code has it. For every chain of windows in which each window and the
  next are edge-docked to each other, in both call orders of \<open>is_docked\<close> (all of them
  candidates of \<open>wlist\<close>), \<open>get_docked_list\<close> started from any window \<open>w\<close> of the chain,
  on the empty list and with offsets \<open>0\<close>, returns a list that contains every window of
  the chain, and every element of the list carries the position of its window relative
  to \<open>w\<close>, as a \<^verbatim>\<open>gint\<close> holds the difference. The result is the same for every
  recursion bound above the number of candidates. By C3 the two call orders agree
  whenever no edge coordinate overflows.
\<close>

theorem get_docked_list_chain_both:
  assumes "successively (docked_both D) chain" and "set chain \<subseteq> set wlist" and "w \<in> set chain"
  shows "\<exists>r. (\<forall>fuel. length wlist < fuel \<longrightarrow> get_docked_list fuel D [] wlist w 0 0 = Some r) \<and>
              set chain \<subseteq> dw_w ` set r \<and>
              (\<forall>d\<in>set r.
                 dw_offset_x d = gint_sub (fst (win_pos D (dw_w d))) (fst (win_pos D w)) \<and>
                 dw_offset_y d = gint_sub (snd (win_pos D (dw_w d))) (snd (win_pos D w)))"
proof -
  from list_total[of wlist D w] obtain r where
    r: "\<And>fuel. length wlist < fuel \<Longrightarrow> get_docked_list fuel D [] wlist w 0 0 = Some r" by blast
  then have r1: "get_docked_list (Suc (length wlist)) D [] wlist w 0 0 = Some r" by simp
  from list_closed_top[OF r1] have w: "w \<in> dw_w ` set r"
    and closed: "\<And>a. a \<in> dw_w ` set r \<Longrightarrow> flood_closed D wlist r a" by auto
  have step: "b \<in> dw_w ` set r" if "a \<in> dw_w ` set r" "docked_to D a b" "b \<in> set wlist" for a b
    using closed[OF that(1)] that(2,3) by (auto simp: flood_closed_def)
  have "set chain \<subseteq> dw_w ` set r"
  proof (rule chain_reached[OF _ _ assms w])
    fix a b assume "a \<in> dw_w ` set r" "docked_both D a b" "b \<in> set wlist"
    then show "b \<in> dw_w ` set r" using step[of a b] by (simp add: docked_both_def)
  next
    fix a b assume "a \<in> dw_w ` set r" "docked_both D b a" "b \<in> set wlist"
    then show "b \<in> dw_w ` set r" using step[of a b] by (simp add: docked_both_def)
  qed
  moreover from list_offsets_top[OF r1] have
    "\<forall>d\<in>set r. dw_offset_x d = gint_sub (fst (win_pos D (dw_w d))) (fst (win_pos D w)) \<and>
                dw_offset_y d = gint_sub (snd (win_pos D (dw_w d))) (snd (win_pos D w))"
    by (simp add: list_all_iff offsets_from_def)
  ultimately show ?thesis using r by blast
qed

text \<open>
  An instance: three windows in a row, the candidates listed in another order, the drag
  started from the middle one.
\<close>

theorem get_docked_list_chain_both_witness:
  "successively (docked_both row_display) [0, 1, 2] \<and> set [0, 1, 2::nat] \<subseteq> set [2, 0, 1] \<and>
   (1::nat) \<in> set [0, 1, 2] \<and>
   (\<exists>r. get_docked_list 4 row_display [] [2, 0, 1] 1 0 0 = Some r \<and>
        set [0, 1, 2] \<subseteq> dw_w ` set r \<and>
        list_all (\<lambda>d. dw_offset_x d =
                       gint_sub (fst (win_pos row_display (dw_w d))) (fst (win_pos row_display 1)) \<and>
                     dw_offset_y d =
                       gint_sub (snd (win_pos row_display (dw_w d))) (snd (win_pos row_display 1))) r)"
proof -
  have h1: "successively (docked_both row_display) [0, 1, 2]"
    by (simp add: docked_both_def docked_to_def is_docked_def row_display_def gint_add_def
          gint_sub_def gint_of_fits fits_gint_def)
  have h2: "set [0, 1, 2] \<subseteq> set [2, 0, 1::nat]" by simp
  have h3: "(1::nat) \<in> set [0, 1, 2]" by simp
  from get_docked_list_chain_both[OF h1 h2 h3] obtain r where
    "\<forall>fuel. length [2, 0, 1::nat] < fuel \<longrightarrow> get_docked_list fuel row_display [] [2, 0, 1] 1 0 0 = Some r"
    "set [0, 1, 2] \<subseteq> dw_w ` set r"
    "\<forall>d\<in>set r. dw_offset_x d =
                  gint_sub (fst (win_pos row_display (dw_w d))) (fst (win_pos row_display 1)) \<and>
                dw_offset_y d =
                  gint_sub (snd (win_pos row_display (dw_w d))) (snd (win_pos row_display 1))"
    by blast
  then have "get_docked_list 4 row_display [] [2, 0, 1] 1 0 0 = Some r \<and>
        set [0, 1, 2] \<subseteq> dw_w ` set r \<and>
        list_all (\<lambda>d. dw_offset_x d =
                       gint_sub (fst (win_pos row_display (dw_w d))) (fst (win_pos row_display 1)) \<and>
                     dw_offset_y d =
                       gint_sub (snd (win_pos row_display (dw_w d))) (snd (win_pos row_display 1))) r"
    by (simp add: list_all_iff)
  with h1 h2 h3 show ?thesis by blast
qed

text \<open>
  The claim as the specification words it, with each window docked to the next in one
  call order, fails where a sum overflows. In \<open>far_display\<close> window 0 is docked to
  window 1 (\<open>is_docked\<close> of window 1 and window 0 holds), so \<open>[1, 0]\<close> is a chain; but
  \<open>is_docked\<close> of window 0 and window 1 fails, and the traversal started from window 0
  returns window 0 alone.
\<close>

theorem get_docked_list_chain_counterexample:
  "successively (docked_to far_display) [1, 0] \<and> set [1, 0::nat] \<subseteq> set [0, 1] \<and>
   (0::nat) \<in> set [1, 0] \<and>
   get_docked_list 3 far_display [] [0, 1] 0 0 0 = Some [\<lparr>dw_w = 0, dw_offset_x = 0, dw_offset_y = 0\<rparr>] \<and>
   (1::nat) \<notin> dw_w ` set [\<lparr>dw_w = 0, dw_offset_x = 0, dw_offset_y = 0\<rparr>]"
  by (simp add: list_numeral scan_Cons docked_to_def new_docked_def is_docked_def far_display_def
        gint_add_def gint_sub_def gint_of_def)

text \<open>
  Claim C5. For every finite candidate list and every geometry of the windows, cyclic
  adjacency included, \<open>get_docked_list\<close> started on the empty list returns: there is a
  result that every recursion bound above the number of candidates yields; and in that
  result no window appears more than once, windows being compared by identity
  (\<open>docked_list_compare\<close>).
\<close>

theorem get_docked_list_terminates_distinct:
  "\<exists>r. (\<forall>fuel. length wlist < fuel \<longrightarrow> get_docked_list fuel D [] wlist w 0 0 = Some r) \<and>
       distinct (map dw_w r) \<and>
       (\<forall>i<length r. \<forall>j<length r. i \<noteq> j \<longrightarrow> docked_list_compare (r ! i) (r ! j) \<noteq> 0)"
proof -
  from list_total[of wlist D w] obtain r where
    r: "\<And>fuel. length wlist < fuel \<Longrightarrow> get_docked_list fuel D [] wlist w 0 0 = Some r" by blast
  then have r1: "get_docked_list (Suc (length wlist)) D [] wlist w 0 0 = Some r" by simp
  have d: "distinct (map dw_w r)"
    by (rule list_distinct[OF _ r1]) simp
  have "docked_list_compare (r ! i) (r ! j) \<noteq> 0" if "i < length r" "j < length r" "i \<noteq> j" for i j
  proof -
    from d that have "map dw_w r ! i \<noteq> map dw_w r ! j"
      by (simp add: nth_eq_iff_index_eq del: nth_map)
    with that show ?thesis by (simp add: docked_list_compare_def)
  qed
  with d r show ?thesis by blast
qed

text \<open>
  An instance with a cycle of adjacency: four windows in a 2 by 2 block, each docked to
  the other three, the candidate list naming one of them twice.
\<close>

theorem get_docked_list_terminates_distinct_witness:
  "\<exists>r. get_docked_list 6 block_display [] [0, 1, 2, 3, 1] 0 0 0 = Some r \<and> distinct (map dw_w r) \<and>
       length r = 4"
proof -
  from get_docked_list_terminates_distinct[of "[0, 1, 2, 3, 1]" block_display 0] obtain r where
    a: "\<forall>fuel. length [0, 1, 2, 3, 1::nat] < fuel \<longrightarrow>
               get_docked_list fuel block_display [] [0, 1, 2, 3, 1] 0 0 0 = Some r"
    and b: "distinct (map dw_w r)" by blast
  from a have c: "get_docked_list 6 block_display [] [0, 1, 2, 3, 1] 0 0 0 = Some r" by simp
  have "get_docked_list 6 block_display [] [0, 1, 2, 3, 1] 0 0 0 =
          Some [\<lparr>dw_w = 0, dw_offset_x = 0, dw_offset_y = 0\<rparr>,
                \<lparr>dw_w = 1, dw_offset_x = 10, dw_offset_y = 0\<rparr>,
                \<lparr>dw_w = 2, dw_offset_x = 0, dw_offset_y = 10\<rparr>,
                \<lparr>dw_w = 3, dw_offset_x = 10, dw_offset_y = 10\<rparr>]"
    by (simp add: list_numeral block_display_def scan_Cons docked_to_def new_docked_def
          is_docked_def gint_add_def gint_sub_def gint_of_fits fits_gint_def)
  with c have "length r = 4" by auto
  with b c show ?thesis by blast
qed

subsection \<open>Claims on the drag\<close>







text \<open>
  Claim C8, as the code has it. \<open>dock_move_press\<close> does not consult the per-window
  \<open>is_moving\<close> marker. When window-manager decorations are shown it does nothing. Otherwise
  it begins a drag whatever the marker of the window was: the outcome is the same for
  every value of the marker, and in it the window holds a newly captured docked list,
  the new grab offsets and candidate list, and a set marker. The marker gates
  \<open>dock_move_motion\<close>, which does nothing for a window whose marker is not set, and it is
  what \<open>dock_is_moving\<close> reports.
\<close>

theorem dock_move_press_ignores_marker:
  assumes "length wlist < fuel"
  shows "(show_wm_decorations (config s) \<longrightarrow> dock_move_press fuel s wlist w mx my move_list = Some s) \<and>
         (\<not> show_wm_decorations (config s) \<longrightarrow>
            dock_move_press fuel (s\<lparr>is_moving := (is_moving s)(w := k)\<rparr>) wlist w mx my move_list =
              dock_move_press fuel s wlist w mx my move_list \<and>
            (\<exists>s' dl. dock_move_press fuel s wlist w mx my move_list = Some s' \<and>
                 (if move_list then get_docked_list fuel (disp s) [] wlist w 0 0
                  else Some [\<lparr>dw_w = w, dw_offset_x = 0, dw_offset_y = 0\<rparr>]) = Some dl \<and>
                 docked_list s' w = dl \<and> window_list s' w = wlist \<and>
                 move_offset_x s' w = mx \<and> move_offset_y s' w = my \<and> dock_is_moving s' w)) \<and>
         (\<not> dock_is_moving s w \<longrightarrow> dock_move_motion s w x_root y_root = s)"
proof (intro conjI impI)
  assume "show_wm_decorations (config s)"
  then show "dock_move_press fuel s wlist w mx my move_list = Some s"
    by (simp add: dock_move_press_def)
next
  assume "\<not> show_wm_decorations (config s)"
  then show "dock_move_press fuel (s\<lparr>is_moving := (is_moving s)(w := k)\<rparr>) wlist w mx my move_list =
              dock_move_press fuel s wlist w mx my move_list"
    by (simp add: dock_move_press_def Let_def split: option.splits)
next
  assume nd: "\<not> show_wm_decorations (config s)"
  from list_total[of wlist "disp s" w] assms obtain r where
    r: "get_docked_list fuel (disp s) [] wlist w 0 0 = Some r" by blast
  show "\<exists>s' dl. dock_move_press fuel s wlist w mx my move_list = Some s' \<and>
                 (if move_list then get_docked_list fuel (disp s) [] wlist w 0 0
                  else Some [\<lparr>dw_w = w, dw_offset_x = 0, dw_offset_y = 0\<rparr>]) = Some dl \<and>
                 docked_list s' w = dl \<and> window_list s' w = wlist \<and>
                 move_offset_x s' w = mx \<and> move_offset_y s' w = my \<and> dock_is_moving s' w"
    using nd r by (cases move_list) (simp_all add: dock_move_press_def Let_def dock_is_moving_def)
next
  assume "\<not> dock_is_moving s w"
  then show "dock_move_motion s w x_root y_root = s"
    by (simp add: dock_is_moving_def dock_move_motion_def split: if_splits)
qed

text \<open>
  An instance: pressing on window 1 of the idle row, with its docked windows, stores the
  list of all three.
\<close>

theorem dock_move_press_ignores_marker_witness:
  "length [0, 1, 2::nat] < 4 \<and> \<not> show_wm_decorations (config idle_state) \<and>
   \<not> dock_is_moving idle_state 1 \<and>
   dock_move_press 4 (idle_state\<lparr>is_moving := (is_moving idle_state)(1 := 1)\<rparr>) [0, 1, 2] 1 3 4 True =
     dock_move_press 4 idle_state [0, 1, 2] 1 3 4 True \<and>
   dock_move_press 4 idle_state [0, 1, 2] 1 3 4 True = Some dragging_row_state \<and>
   dock_move_motion idle_state 1 505 304 = idle_state"
proof -
  have h: "length [0, 1, 2::nat] < 4" by simp
  have nd: "\<not> show_wm_decorations (config idle_state)"
    by (simp add: idle_state_def snap_cfg_def)
  have nm: "\<not> dock_is_moving idle_state 1"
    by (simp add: dock_is_moving_def idle_state_def)
  have p: "dock_move_press 4 idle_state [0, 1, 2] 1 3 4 True = Some dragging_row_state"
    by (simp add: dock_move_press_def idle_state_def snap_cfg_def dragging_row_state_def
          row_display_def list_numeral scan_Cons docked_to_def new_docked_def is_docked_def
          gint_add_def gint_sub_def gint_of_fits
          fits_gint_def)
  from dock_move_press_ignores_marker[OF h, where s = idle_state and w = 1 and k = 1 and mx = 3
      and my = 4 and move_list = True and x_root = 505 and y_root = 304] nd nm p
  show ?thesis by simp
qed

text \<open>
  The claim as the specification words it fails: window 1 is being dragged alone, its
  marker set; a second \<open>dock_move_press\<close> on it replaces the captured list by a newly
  captured one and overwrites the grab offsets.
\<close>

theorem dock_move_press_marker_counterexample:
  "dock_is_moving dragging_state 1 \<and>
   docked_list dragging_state 1 = [\<lparr>dw_w = 1, dw_offset_x = 0, dw_offset_y = 0\<rparr>] \<and>
   move_offset_x dragging_state 1 = 7 \<and> move_offset_y dragging_state 1 = 8 \<and>
   dock_move_press 4 dragging_state [0, 1, 2] 1 3 4 True =
     Some (dragging_row_state\<lparr>presented := [1, 1]\<rparr>) \<and>
   docked_list (dragging_row_state\<lparr>presented := [1, 1]\<rparr>) 1 =
     [\<lparr>dw_w = 1, dw_offset_x = 0, dw_offset_y = 0\<rparr>,
      \<lparr>dw_w = 0, dw_offset_x = - 10, dw_offset_y = 0\<rparr>,
      \<lparr>dw_w = 2, dw_offset_x = 10, dw_offset_y = 0\<rparr>] \<and>
   move_offset_x (dragging_row_state\<lparr>presented := [1, 1]\<rparr>) 1 = 3 \<and>
   move_offset_y (dragging_row_state\<lparr>presented := [1, 1]\<rparr>) 1 = 4"
  by (simp add: dock_is_moving_def dock_move_press_def dragging_state_def idle_state_def
        snap_cfg_def dragging_row_state_def row_display_def list_numeral scan_Cons docked_to_def
        new_docked_def is_docked_def gint_add_def gint_sub_def gint_of_fits
          fits_gint_def)

subsection \<open>Claim on snapping\<close>

text \<open>
  Claim C6 says that when an edge is within the snap tolerance, the correction of
  \<open>calc_snap_offset\<close> makes the moved window's edge coincide with the edge snapped to.
  The code misses this when both screen edges of an axis are in range at once. On the
  screen of width 100, with a tolerance of 10, window 0 is 99 pixels wide and is dragged
  alone to \<open>x = 3\<close>: its left edge is 3 pixels from the screen's left edge and its
  right edge 2 pixels from the screen's right edge. The two tests of
  ``snap to screen edges'' both read the position computed before either correction
  (the loop over the other windows computes it anew before every test), the two
  corrections add up to \<open>- 5\<close>, and the window lands at \<open>x = - 2\<close> with neither edge on
  a screen edge.
\<close>

theorem calc_snap_offset_double_screen_edge:
  "snap_windows snap_cfg \<and> \<bar>3\<bar> < snap_distance snap_cfg \<and>
   \<bar>3 + fst (win_size small_screen 0) - screen_width small_screen\<bar> < snap_distance snap_cfg \<and>
   calc_snap_offset snap_cfg small_screen [\<lparr>dw_w = 0, dw_offset_x = 0, dw_offset_y = 0\<rparr>] [0] 3 20
     = (- 5, 0) \<and>
   3 + (- 5) \<noteq> (0::int) \<and>
   3 + (- 5) + fst (win_size small_screen 0) \<noteq> screen_width small_screen"
  by (simp add: calc_snap_offset_def calc_snap_one_def calc_snap_screen_def calc_snap_window_def
        g_list_find_custom_def docked_list_compare_def snap_cfg_def small_screen_def
        gint_add_def gint_sub_def gint_abs_def gint_of_fits
          fits_gint_def)

subsection \<open>Printing and reading numbers\<close>

lemma digit_char: "d < 10 \<Longrightarrow> (of_char (char_of (48 + d :: nat)) :: nat) = 48 + d"
  by simp

lemma digits_of_nonempty: "digits_of n \<noteq> []"
  by (subst digits_of.simps) simp

lemma digits_of_isdigit: "list_all isdigit (digits_of n)"
proof (induction n rule: digits_of.induct)
  case (1 n)
  show ?case
  proof (cases "n < 10")
    case True
    then show ?thesis by (subst digits_of.simps) (simp add: isdigit_def)
  next
    case False
    have "n mod 10 < 10" by simp
    then have "isdigit (char_of (48 + n mod 10))" unfolding isdigit_def digit_char by simp
    with False "1.IH" show ?thesis by (subst digits_of.simps) simp
  qed
qed

lemma digits_value_snoc: "digits_value (ds @ [c]) = 10 * digits_value ds + (of_char c - 48)"
  by (simp add: digits_value_def)

lemma digits_value_digits_of: "digits_value (digits_of n) = n"
proof (induction n rule: digits_of.induct)
  case (1 n)
  show ?case
  proof (cases "n < 10")
    case True
    then show ?thesis by (subst digits_of.simps) (simp add: digits_value_def)
  next
    case False
    have "n mod 10 < 10" by simp
    then have "(of_char (char_of (48 + n mod 10)) :: nat) - 48 = n mod 10"
      unfolding digit_char by simp
    with False "1.IH" show ?thesis
      by (subst digits_of.simps) (simp add: digits_value_snoc del: of_char_of)
  qed
qed

lemma digits_of_length: "n < 10 ^ k \<Longrightarrow> 0 < k \<Longrightarrow> length (digits_of n) \<le> k"
proof (induction n arbitrary: k rule: digits_of.induct)
  case (1 n)
  show ?case
  proof (cases "n < 10")
    case True
    with "1.prems" show ?thesis by (subst digits_of.simps) simp
  next
    case False
    with "1.prems" obtain j where k: "k = Suc j" by (cases k) auto
    with False "1.prems" have "0 < j" by (cases j) auto
    from "1.prems" k have "n div 10 < 10 ^ j" by (simp add: less_mult_imp_div_less mult.commute)
    from "1.IH"[OF False this \<open>0 < j\<close>] False k show ?thesis
      by (subst digits_of.simps) simp
  qed
qed

lemma isdigit_plain: "isdigit c \<Longrightarrow> \<not> isspace c \<and> c \<noteq> CHR ''-'' \<and> c \<noteq> CHR ''+'' \<and>
  c \<noteq> CHR 0x0A \<and> c \<noteq> CHR 0x00 \<and> c \<noteq> CHR '' ''"
  by (auto simp: isdigit_def isspace_def)

lemma sscanf_d_digits: "sscanf_d (digits_of n) = Some (int n)"
proof -
  obtain c cs where d: "digits_of n = c # cs" using digits_of_nonempty by (cases "digits_of n") auto
  with digits_of_isdigit[of n] have c: "isdigit c" by simp
  have t: "takeWhile isdigit (digits_of n) = digits_of n"
    using digits_of_isdigit[of n] by (simp add: takeWhile_eq_all_conv list_all_iff)
  from isdigit_plain[OF c] have "dropWhile isspace (digits_of n) = digits_of n" by (simp add: d)
  then show ?thesis
    using isdigit_plain[OF c] t d digits_value_digits_of[of n]
    by (simp add: sscanf_d_def)
qed

lemma sscanf_d_format_d: "sscanf_d (format_d v) = Some v"
proof (cases "v < 0")
  case False
  then show ?thesis by (simp add: format_d_def sscanf_d_digits)
next
  case True
  let ?n = "nat (- v)"
  obtain c cs where d: "digits_of ?n = c # cs"
    using digits_of_nonempty by (cases "digits_of ?n") auto
  have t: "takeWhile isdigit (digits_of ?n) = digits_of ?n"
    using digits_of_isdigit[of ?n] by (simp add: takeWhile_eq_all_conv list_all_iff)
  have "\<not> isspace (CHR ''-'')" by (simp add: isspace_def)
  with True t d digits_value_digits_of[of ?n] show ?thesis
    by (simp add: format_d_def sscanf_d_def)
qed

lemma format_d_chars:
  "CHR 0x0A \<notin> set (format_d v) \<and> CHR 0x00 \<notin> set (format_d v) \<and> CHR '' '' \<notin> set (format_d v)"
proof -
  have "\<forall>c\<in>set (digits_of n). c \<noteq> CHR 0x0A \<and> c \<noteq> CHR 0x00 \<and> c \<noteq> CHR '' ''" for n
    using digits_of_isdigit[of n] isdigit_plain by (auto simp: list_all_iff)
  then show ?thesis by (auto simp: format_d_def)
qed

lemma format_d_length: "fits_gint v \<Longrightarrow> length (format_d v) \<le> 11"
proof -
  assume g: "fits_gint v"
  have "length (digits_of n) \<le> 10" if "n < 10 ^ 10" for n
    using digits_of_length[OF that] by simp
  moreover from g have "nat v < 10 ^ 10" "nat (- v) < 10 ^ 10" by (auto simp: fits_gint_def)
  ultimately have "length (digits_of (nat v)) \<le> 10" "length (digits_of (nat (- v))) \<le> 10" by blast+
  then show ?thesis by (simp add: format_d_def)
qed

subsection \<open>Reading one line\<close>

lemma fgets_line_whole:
  "CHR 0x0A \<notin> set l \<Longrightarrow> length l < k \<Longrightarrow> fgets_line k (l @ CHR 0x0A # rest) = l @ [CHR 0x0A]"
proof (induction l arbitrary: k)
  case Nil
  then show ?case by (cases k) auto
next
  case (Cons c l)
  then show ?case by (cases k) auto
qed

lemma takeWhile_until: "a \<notin> set xs \<Longrightarrow> takeWhile (\<lambda>c. c \<noteq> a) (xs @ a # ys) = xs"
  by (induction xs) auto

lemma dropWhile_until: "a \<notin> set xs \<Longrightarrow> dropWhile (\<lambda>c. c \<noteq> a) (xs @ a # ys) = a # ys"
  by (induction xs) auto

lemma parse_next_line:
  assumes h: "handle p = key @ CHR '' '' # val @ CHR 0x0A # rest"
    and key: "CHR '' '' \<notin> set key" "CHR 0x0A \<notin> set key" "CHR 0x00 \<notin> set key"
    and val: "CHR 0x0A \<notin> set val" "CHR 0x00 \<notin> set val"
    and len: "length key + length val < 510"
  shows "parse_next p = p\<lparr>parse_key := key, parse_value := Some val, handle := rest\<rparr>"
proof -
  let ?l = "key @ CHR '' '' # val"
  let ?line = "key @ CHR '' '' # val @ [CHR 0x0A]"
  have nl: "CHR 0x0A \<notin> set ?l" using key val by simp
  have ll: "length ?l < 511" using len by simp
  have hh: "handle p = ?l @ CHR 0x0A # rest" using h by simp
  have "fgets_line 511 (handle p) = ?l @ [CHR 0x0A]"
    unfolding hh by (rule fgets_line_whole[OF nl ll])
  then have fl: "fgets_line 511 (handle p) = ?line" by simp
  have fg: "fgets 512 (handle p) = Some (?line, rest)"
    unfolding fgets_def Let_def using fl h by simp
  have cs: "c_str ?line = ?line"
    unfolding c_str_def using key val by (auto simp: takeWhile_eq_all_conv)
  have k: "takeWhile (\<lambda>c. c \<noteq> CHR '' '') ?line = key"
    by (rule takeWhile_until[OF key(1)])
  have d: "dropWhile (\<lambda>c. c \<noteq> CHR '' '') ?line = CHR '' '' # val @ [CHR 0x0A]"
    by (rule dropWhile_until[OF key(1)])
  have v: "takeWhile (\<lambda>c. c \<noteq> CHR 0x0A) (val @ [CHR 0x0A]) = val"
    by (rule takeWhile_until[OF val(1)])
  have sp: "CHR '' '' \<in> set ?line" by simp
  show ?thesis
    unfolding parse_next_def Let_def by (simp add: fg cs k d v)
qed

lemma parse_next_text_line:
  assumes "CHR '' '' \<notin> set key" "CHR 0x0A \<notin> set key" "CHR 0x00 \<notin> set key"
    and "CHR 0x0A \<notin> set val" "CHR 0x00 \<notin> set val"
    and "length key + length val < 510"
  shows "parse_next \<lparr>parse_key = k0, parse_value = v0, handle = text_line key val @ rest\<rparr> =
           \<lparr>parse_key = key, parse_value = Some val, handle = rest\<rparr>"
  using parse_next_line[of "\<lparr>parse_key = k0, parse_value = v0, handle = text_line key val @ rest\<rparr>"
      key val rest, OF _ assms]
  by (simp add: text_line_def)

lemma parse_next_eof:
  "parse_next \<lparr>parse_key = k0, parse_value = v0, handle = []\<rparr> =
     \<lparr>parse_key = k0, parse_value = None, handle = []\<rparr>"
  by (simp add: parse_next_def fgets_def)

lemma parse_field:
  assumes "fits_gint v" and "CHR '' '' \<notin> set key" "CHR 0x0A \<notin> set key" "CHR 0x00 \<notin> set key"
    and "length key < 400"
  shows "parse_next \<lparr>parse_key = k0, parse_value = v0,
                      handle = text_line key (format_d v) @ rest\<rparr> =
           \<lparr>parse_key = key, parse_value = Some (format_d v), handle = rest\<rparr>"
proof (rule parse_next_text_line[OF assms(2,3,4)])
  show "CHR 0x0A \<notin> set (format_d v)" "CHR 0x00 \<notin> set (format_d v)"
    using format_d_chars[of v] by simp_all
  show "length key + length (format_d v) < 510"
    using format_d_length[OF assms(1)] assms(5) by simp
qed

lemma parse_name:
  assumes "valid_name nm"
  shows "parse_next \<lparr>parse_key = k0, parse_value = v0, handle = text_line ''item'' nm @ rest\<rparr> =
           \<lparr>parse_key = ''item'', parse_value = Some nm, handle = rest\<rparr>"
  using assms by (intro parse_next_text_line) (simp_all add: valid_name_def)

lemma item_text_lines:
  "item_text it =
     text_line ''item'' (it_name it) @ text_line ''pane'' (format_d (it_dock it)) @
     text_line ''x'' (format_d (it_x it)) @ text_line ''y'' (format_d (it_y it)) @
     text_line ''w'' (format_d (it_w it)) @ text_line ''h'' (format_d (it_h it))"
  by (simp add: item_text_def text_line_def)

lemma truncated_text_lines:
  "truncated_text nm [] = text_line ''item'' nm"
  "truncated_text nm [a] = text_line ''item'' nm @ text_line ''pane'' (format_d a)"
  "truncated_text nm [a, b] =
     text_line ''item'' nm @ text_line ''pane'' (format_d a) @ text_line ''x'' (format_d b)"
  "truncated_text nm [a, b, c] =
     text_line ''item'' nm @ text_line ''pane'' (format_d a) @ text_line ''x'' (format_d b) @
     text_line ''y'' (format_d c)"
  "truncated_text nm [a, b, c, d] =
     text_line ''item'' nm @ text_line ''pane'' (format_d a) @ text_line ''x'' (format_d b) @
     text_line ''y'' (format_d c) @ text_line ''w'' (format_d d)"
  by (simp_all add: truncated_text_def text_line_def field_keys_def)

subsection \<open>Reading one record\<close>

lemma load_record_complete:
  assumes st: "item_storable it"
  shows "load_record \<lparr>parse_key = k0, parse_value = v0, handle = item_text it @ rest\<rparr> its =
           (True, \<lparr>parse_key = ''h'', parse_value = Some (format_d (it_h it)), handle = rest\<rparr>,
            its @ [placeholder it])"
proof -
  from st have n: "valid_name (it_name it)"
    and g: "fits_gint (it_dock it)" "fits_gint (it_x it)" "fits_gint (it_y it)" "fits_gint (it_w it)"
      "fits_gint (it_h it)"
    by (simp_all add: item_storable_def)
  have e: "\<lparr>it_name = it_name it, it_widget = None, it_vbox = None, it_paned = None,
            it_window = None, it_dock = it_dock it, it_x = it_x it, it_y = it_y it,
            it_w = it_w it, it_h = it_h it\<rparr> = placeholder it"
    by (cases it) (simp add: placeholder_def)
  show ?thesis
    unfolding load_record_def item_text_lines
    by (simp add: Let_def parse_name[OF n] parse_field[OF g(1)] parse_field[OF g(2)]
          parse_field[OF g(3)] parse_field[OF g(4)] parse_field[OF g(5)] parse_string_def
          parse_integer_def sscanf_d_format_d item_new_def e)
qed


lemma short_list_cases:
  assumes "length vs < 5"
  obtains "vs = []" | a where "vs = [a]" | a b where "vs = [a, b]"
    | a b c where "vs = [a, b, c]" | a b c d where "vs = [a, b, c, d]"
proof (cases vs)
  case Nil
  then show ?thesis using that(1) by simp
next
  case (Cons a v1)
  show ?thesis
  proof (cases v1)
    case Nil
    with Cons that(2) show ?thesis by simp
  next
    case c2: (Cons b v2)
    show ?thesis
    proof (cases v2)
      case Nil
      with Cons c2 that(3) show ?thesis by simp
    next
      case c3: (Cons c v3)
      show ?thesis
      proof (cases v3)
        case Nil
        with Cons c2 c3 that(4) show ?thesis by simp
      next
        case c4: (Cons d v4)
        with Cons c2 c3 assms have "v4 = []" by simp
        with Cons c2 c3 c4 that(5) show ?thesis by simp
      qed
    qed
  qed
qed

lemma load_record_truncated:
  assumes n: "valid_name nm" and g: "\<forall>v\<in>set vs. fits_gint v" and l: "length vs < 5"
  shows "\<exists>p'. load_record \<lparr>parse_key = k0, parse_value = v0, handle = truncated_text nm vs\<rparr> its =
           (False, p', its @ [partial_item nm vs])"
proof -
  from l show ?thesis
  proof (cases rule: short_list_cases)
    case 1
    show ?thesis
      unfolding 1 load_record_def truncated_text_lines
      using parse_name[OF n, of k0 v0 "[]"]
      by (simp add: Let_def parse_next_eof parse_string_def parse_integer_def item_new_def
            partial_item_def)
  next
    case (2 a)
    with g have ga: "fits_gint a" by simp
    show ?thesis
      unfolding 2 load_record_def truncated_text_lines
      using parse_field[OF ga, of "''pane''" _ _ "[]"]
      by (simp add: Let_def parse_name[OF n] parse_next_eof parse_string_def parse_integer_def
            sscanf_d_format_d item_new_def partial_item_def)
  next
    case (3 a b)
    with g have ga: "fits_gint a" "fits_gint b" by simp_all
    show ?thesis
      unfolding 3 load_record_def truncated_text_lines
      using parse_field[OF ga(2), of "''x''" _ _ "[]"]
      by (simp add: Let_def parse_name[OF n] parse_field[OF ga(1)] parse_next_eof parse_string_def
            parse_integer_def sscanf_d_format_d item_new_def partial_item_def)
  next
    case (4 a b c)
    with g have ga: "fits_gint a" "fits_gint b" "fits_gint c" by simp_all
    show ?thesis
      unfolding 4 load_record_def truncated_text_lines
      using parse_field[OF ga(3), of "''y''" _ _ "[]"]
      by (simp add: Let_def parse_name[OF n] parse_field[OF ga(1)] parse_field[OF ga(2)]
            parse_next_eof parse_string_def parse_integer_def sscanf_d_format_d item_new_def
            partial_item_def)
  next
    case (5 a b c d)
    with g have ga: "fits_gint a" "fits_gint b" "fits_gint c" "fits_gint d" by simp_all
    show ?thesis
      unfolding 5 load_record_def truncated_text_lines
      using parse_field[OF ga(4), of "''w''" _ _ "[]"]
      by (simp add: Let_def parse_name[OF n] parse_field[OF ga(1)] parse_field[OF ga(2)]
            parse_field[OF ga(3)] parse_next_eof parse_string_def parse_integer_def
            sscanf_d_format_d item_new_def partial_item_def)
  qed
qed

subsection \<open>Reading the file\<close>

lemma layout_load_loop_records:
  assumes "\<forall>it\<in>set xs. item_storable it"
  shows "\<exists>k1 v1. layout_load_loop \<lparr>parse_key = k0, parse_value = v0,
                                    handle = concat (map item_text xs) @ rest\<rparr> its =
           layout_load_loop \<lparr>parse_key = k1, parse_value = v1, handle = rest\<rparr>
             (its @ map placeholder xs)"
  using assms
proof (induction xs arbitrary: k0 v0 its)
  case Nil
  show ?case by (intro exI[of _ k0] exI[of _ v0]) simp
next
  case (Cons x xs)
  from Cons.prems have x: "item_storable x" and xs: "\<forall>it\<in>set xs. item_storable it" by simp_all
  have "layout_load_loop \<lparr>parse_key = k0, parse_value = v0,
                           handle = concat (map item_text (x # xs)) @ rest\<rparr> its =
        layout_load_loop \<lparr>parse_key = ''h'', parse_value = Some (format_d (it_h x)),
                           handle = concat (map item_text xs) @ rest\<rparr> (its @ [placeholder x])"
    by (subst layout_load_loop.simps)
       (simp add: load_record_complete[OF x, of k0 v0 "concat (map item_text xs) @ rest" its])
  with Cons.IH[OF xs, of "''h''" "Some (format_d (it_h x))" "its @ [placeholder x]"]
  show ?case by simp
qed


lemma layout_load_loop_truncated:
  assumes "valid_name nm" "\<forall>v\<in>set vs. fits_gint v" "length vs < 5"
  shows "layout_load_loop \<lparr>parse_key = k0, parse_value = v0, handle = truncated_text nm vs\<rparr> its =
           its @ [partial_item nm vs]"
proof -
  from load_record_truncated[OF assms, of k0 v0 its] obtain p' where
    "load_record \<lparr>parse_key = k0, parse_value = v0, handle = truncated_text nm vs\<rparr> its =
       (False, p', its @ [partial_item nm vs])" by blast
  then show ?thesis by (subst layout_load_loop.simps) simp
qed


subsection \<open>Saving\<close>












lemma layout_load_cut:
  assumes "\<forall>it\<in>set xs. item_storable it" "valid_name nm" "\<forall>v\<in>set vs. fits_gint v"
    "length vs < 5" "items t = []"
    "layout_file t = Some (concat (map item_text xs) @ truncated_text nm vs)"
  shows "items (layout_load t) = map placeholder xs @ [partial_item nm vs]"
proof -
  from layout_load_loop_records[OF assms(1), of "[]" None "truncated_text nm vs" "[]"]
  have "layout_load_loop \<lparr>parse_key = [], parse_value = None,
                           handle = concat (map item_text xs) @ truncated_text nm vs\<rparr> [] =
          map placeholder xs @ [partial_item nm vs]"
    by (auto simp: layout_load_loop_truncated[OF assms(2,3,4)])
  with assms(5,6) show ?thesis by (simp add: layout_load_def)
qed

subsection \<open>The layout file\<close>

text \<open>
  Claim C1, as the code has it. \<^verbatim>\<open>layout_load\<close> calls \<^verbatim>\<open>item_new\<close> as soon as it has read
  the \<^verbatim>\<open>item\<close> line of a record, and \<^verbatim>\<open>item_new\<close> appends the item to the list; the
  \<^verbatim>\<open>break\<close> at a missing line leaves it there. So when the file holds complete records
  followed by a record cut short after its \<^verbatim>\<open>item\<close> line and fewer than five of its number
  lines, the items after the load are those of the complete records, in file order,
  followed by one more item for the cut record: it has the name and the numbers that were
  read, and the values that \<^verbatim>\<open>item_new\<close> sets (dock -1, x -1, y -1, w 0, h 0) for the
  others.
\<close>

theorem layout_load_truncated_keeps_partial:
  assumes "\<forall>it\<in>set xs. item_storable it"
    and "valid_name nm" and "\<forall>v\<in>set vs. fits_gint v" and "length vs < 5"
    and "items t = []"
    and "layout_file t = Some (concat (map item_text xs) @ truncated_text nm vs)"
  shows "items (layout_load t) = map placeholder xs @ [partial_item nm vs]"
  using assms by (rule layout_load_cut)

theorem layout_load_truncated_keeps_partial_witness:
  "list_all item_storable
     [\<lparr>it_name = ''a'', it_widget = None, it_vbox = None, it_paned = None,
       it_window = None, it_dock = 0, it_x = 1, it_y = 2, it_w = 3, it_h = 4\<rparr>] \<and>
   valid_name ''b'' \<and> list_all fits_gint [1, 5, 6, 7] \<and> length [1, 5, 6, 7 :: int] < 5 \<and>
   items (layout_load (sample_layout\<lparr>layout_file := Some (concat (map item_text
      [\<lparr>it_name = ''a'', it_widget = None, it_vbox = None, it_paned = None,
        it_window = None, it_dock = 0, it_x = 1, it_y = 2, it_w = 3, it_h = 4\<rparr>]) @
      truncated_text ''b'' [1, 5, 6, 7])\<rparr>)) =
   [\<lparr>it_name = ''a'', it_widget = None, it_vbox = None, it_paned = None, it_window = None,
     it_dock = 0, it_x = 1, it_y = 2, it_w = 3, it_h = 4\<rparr>,
    \<lparr>it_name = ''b'', it_widget = None, it_vbox = None, it_paned = None, it_window = None,
     it_dock = 1, it_x = 5, it_y = 6, it_w = 7, it_h = 0\<rparr>]"
  using layout_load_truncated_keeps_partial
    [of "[\<lparr>it_name = ''a'', it_widget = None, it_vbox = None, it_paned = None,
           it_window = None, it_dock = 0, it_x = 1, it_y = 2, it_w = 3, it_h = 4\<rparr>]"
        "''b''" "[1, 5, 6, 7]"
        "sample_layout\<lparr>layout_file := Some (concat (map item_text
           [\<lparr>it_name = ''a'', it_widget = None, it_vbox = None, it_paned = None,
             it_window = None, it_dock = 0, it_x = 1, it_y = 2, it_w = 3, it_h = 4\<rparr>]) @
           truncated_text ''b'' [1, 5, 6, 7])\<rparr>"]
  by (simp add: item_storable_def valid_name_def fits_gint_def sample_layout_def
        placeholder_def partial_item_def)

text \<open>
  The claim as stated, at the file \<open>cut_file\<close>: one complete record \<^verbatim>\<open>a\<close>, then the record
  \<^verbatim>\<open>b\<close> without its \<^verbatim>\<open>h\<close> line. After the load there are two items, not one.
\<close>

theorem layout_load_truncated_counterexample:
  "items (layout_load (sample_layout\<lparr>layout_file := Some cut_file\<rparr>)) =
     [\<lparr>it_name = ''a'', it_widget = None, it_vbox = None, it_paned = None, it_window = None,
       it_dock = 0, it_x = 1, it_y = 2, it_w = 3, it_h = 4\<rparr>,
      \<lparr>it_name = ''b'', it_widget = None, it_vbox = None, it_paned = None, it_window = None,
       it_dock = 1, it_x = 5, it_y = 6, it_w = 7, it_h = 0\<rparr>] \<and>
   items (layout_load (sample_layout\<lparr>layout_file := Some cut_file\<rparr>)) \<noteq>
     [\<lparr>it_name = ''a'', it_widget = None, it_vbox = None, it_paned = None, it_window = None,
       it_dock = 0, it_x = 1, it_y = 2, it_w = 3, it_h = 4\<rparr>]"
  by code_simp




subsection \<open>Adding a panel\<close>

lemma find_node_Some:
  "find_node P xs = Some i \<Longrightarrow> i < length xs \<and> P (xs ! i)"
proof (induction xs arbitrary: i)
  case Nil
  then show ?case by simp
next
  case (Cons x xs)
  show ?case
  proof (cases "P x")
    case True
    with Cons.prems show ?thesis by simp
  next
    case False
    with Cons.prems obtain k where k: "find_node P xs = Some k" and i: "i = Suc k" by auto
    from Cons.IH[OF k] i show ?thesis by simp
  qed
qed

lemma gtk_pack_fresh: "g_fresh (gtk_pack g c w) = g_fresh g"
  by (simp add: gtk_pack_def)

lemma gtk_container_add_fresh: "g_fresh (gtk_container_add g c w) = g_fresh g"
  by (simp add: gtk_container_add_def)

lemma vbox_new_fresh:
  "vbox_new wd g = (v, g') \<Longrightarrow> v = g_fresh g \<and> g_fresh g' = g_fresh g + 3"
  by (auto simp: vbox_new_def gtk_new_def Let_def gtk_pack_fresh gtk_container_add_fresh)

lemma item_add_window_items:
  "items (item_add_window i s) =
     (items s)[i := (items s ! i)\<lparr>it_window := Some (g_fresh (gtk s))\<rparr>] \<and>
   criticals (item_add_window i s) = criticals s \<and>
   wild_index (item_add_window i s) = wild_index s \<and>
   docks (item_add_window i s) = docks s"
  by (simp add: item_add_window_def gtk_new_def Let_def split: prod.splits)

lemma layout_add_floating:
  assumes "layout s = Some l" "center s = Some c" "length nm \<le> 256" "CHR 0x0A \<notin> set nm"
    and "g_list_find_custom_node (items s) nm item_by_name = Some i"
    and "it_widget (items s ! i) = None" "it_vbox (items s ! i) = None"
    and "it_window (items s ! i) = None" "it_paned (items s ! i) = None"
    and "\<not> (0 \<le> it_dock (items s ! i) \<and> it_dock (items s ! i) < DOCKS)"
  shows "items (layout_add (Some wd) (Some nm) s) =
           (items s)[i := (items s ! i)
              \<lparr>it_dock := (if it_dock (items s ! i) \<ge> DOCKS then - 1 else it_dock (items s ! i)),
               it_widget := Some wd, it_vbox := Some (g_fresh (gtk s)),
               it_window := Some (g_fresh (gtk s) + 3)\<rparr>] \<and>
         criticals (layout_add (Some wd) (Some nm) s) = criticals s \<and>
         wild_index (layout_add (Some wd) (Some nm) s) = wild_index s \<and>
         docks (layout_add (Some wd) (Some nm) s) = docks s"
proof -
  from assms(5) have i: "i < length (items s)"
    by (auto simp: g_list_find_custom_node_def dest: find_node_Some)
  obtain v g' where vb: "vbox_new wd (gtk s) = (v, g')" by (cases "vbox_new wd (gtk s)")
  from vbox_new_fresh[OF vb] have v: "v = g_fresh (gtk s)" and f: "g_fresh g' = g_fresh (gtk s) + 3"
    by simp_all
  let ?d = "if it_dock (items s ! i) \<ge> DOCKS then - 1 else it_dock (items s ! i)"
  let ?it = "(items s ! i)\<lparr>it_dock := ?d, it_widget := Some wd, it_vbox := Some v\<rparr>"
  let ?s1 = "s\<lparr>items := (items s)[i := ?it], gtk := g'\<rparr>"
  have d: "?d < 0" using assms(10) by (auto simp: DOCKS_def)
  have la: "layout_add (Some wd) (Some nm) s = item_add i ?s1"
    using assms(1-8) vb by (simp add: layout_add_def Let_def)
  have at: "items ?s1 ! i = ?it" using i by simp
  have ia: "item_add i ?s1 = item_add_window i ?s1"
    unfolding item_add_def Let_def at using d assms(8,9) by (simp add: DOCKS_def)
  show ?thesis
    unfolding la ia using item_add_window_items[of i ?s1] i f v by simp
qed

text \<open>
  Claim C10, as the code has it. Let \<^verbatim>\<open>layout_add\<close> attach a widget to a placeholder (no
  widget, box, window or paned) whose pane value is outside \<open>0 .. 3\<close>. A value of 4
  (\<^verbatim>\<open>DOCKS\<close>) or more is reset to -1; a negative value is left as it is, so that -2 stays
  -2. In both cases the panel becomes a floating window: the item gets the widget, a new
  box and a new window, its pane value is negative, no other item changes, \<^verbatim>\<open>docks[]\<close> is
  neither indexed out of range nor written, and no guard fails.
\<close>

theorem layout_add_out_of_range_pane:
  assumes "layout s = Some l" and "center s = Some c"
    and "length nm \<le> 256" and "CHR 0x0A \<notin> set nm"
    and "g_list_find_custom_node (items s) nm item_by_name = Some i"
    and "it_widget (items s ! i) = None" and "it_vbox (items s ! i) = None"
    and "it_window (items s ! i) = None" and "it_paned (items s ! i) = None"
    and "\<not> (0 \<le> it_dock (items s ! i) \<and> it_dock (items s ! i) < DOCKS)"
  shows "items (layout_add (Some wd) (Some nm) s) =
           (items s)[i := (items s ! i)
              \<lparr>it_dock := (if it_dock (items s ! i) \<ge> DOCKS then - 1 else it_dock (items s ! i)),
               it_widget := Some wd, it_vbox := Some (g_fresh (gtk s)),
               it_window := Some (g_fresh (gtk s) + 3)\<rparr>] \<and>
         it_dock (items (layout_add (Some wd) (Some nm) s) ! i) < 0 \<and>
         criticals (layout_add (Some wd) (Some nm) s) = criticals s \<and>
         wild_index (layout_add (Some wd) (Some nm) s) = wild_index s \<and>
         docks (layout_add (Some wd) (Some nm) s) = docks s"
proof -
  note A = layout_add_floating[OF assms, of wd]
  from assms(5) have i: "i < length (items s)"
    by (auto simp: g_list_find_custom_node_def dest: find_node_Some)
  from A have "items (layout_add (Some wd) (Some nm) s) ! i =
           (items s ! i)
              \<lparr>it_dock := (if it_dock (items s ! i) \<ge> DOCKS then - 1 else it_dock (items s ! i)),
               it_widget := Some wd, it_vbox := Some (g_fresh (gtk s)),
               it_window := Some (g_fresh (gtk s) + 3)\<rparr>"
    using i by simp
  then have "it_dock (items (layout_add (Some wd) (Some nm) s) ! i) < 0"
    using assms(10) by (auto simp: DOCKS_def)
  with A show ?thesis by simp
qed

text \<open>A placeholder with pane value 7, as a file can give it: reset to -1, and floating.\<close>

theorem layout_add_out_of_range_pane_witness:
  "layout (sample_layout\<lparr>items := [\<lparr>it_name = ''a'', it_widget = None, it_vbox = None,
      it_paned = None, it_window = None, it_dock = 7, it_x = 10, it_y = 20, it_w = 300,
      it_h = 200\<rparr>]\<rparr>) = Some 0 \<and>
   items (layout_add (Some 2) (Some ''a'')
     (sample_layout\<lparr>items := [\<lparr>it_name = ''a'', it_widget = None, it_vbox = None,
        it_paned = None, it_window = None, it_dock = 7, it_x = 10, it_y = 20, it_w = 300,
        it_h = 200\<rparr>]\<rparr>)) =
     [\<lparr>it_name = ''a'', it_widget = Some 2, it_vbox = Some 4, it_paned = None,
       it_window = Some 7, it_dock = - 1, it_x = 10, it_y = 20, it_w = 300, it_h = 200\<rparr>] \<and>
   criticals (layout_add (Some 2) (Some ''a'')
     (sample_layout\<lparr>items := [\<lparr>it_name = ''a'', it_widget = None, it_vbox = None,
        it_paned = None, it_window = None, it_dock = 7, it_x = 10, it_y = 20, it_w = 300,
        it_h = 200\<rparr>]\<rparr>)) = 0"
  using layout_add_out_of_range_pane
    [of "sample_layout\<lparr>items := [\<lparr>it_name = ''a'', it_widget = None, it_vbox = None,
        it_paned = None, it_window = None, it_dock = 7, it_x = 10, it_y = 20, it_w = 300,
        it_h = 200\<rparr>]\<rparr>" 0 1 "''a''" 0 2]
  by (simp add: sample_layout_def sample_gtk_def g_list_find_custom_node_def item_by_name_def
        DOCKS_def)

text \<open>
  The claim as stated, at the pane value -2 read from \<open>odd_file\<close>: it is outside
  \<open>0 .. 3\<close>, and after \<^verbatim>\<open>layout_add\<close> it is still -2, not -1.
\<close>

theorem layout_add_negative_pane_counterexample:
  "map it_dock (items odd_layout) = [- 2] \<and>
   map it_widget (items odd_layout) = [None] \<and>
   map it_dock (items (layout_add (Some 2) (Some ''a'') odd_layout)) = [- 2] \<and>
   map it_widget (items (layout_add (Some 2) (Some ''a'') odd_layout)) = [Some 2] \<and>
   map it_dock (items (layout_add (Some 2) (Some ''a'') odd_layout)) \<noteq> [- 1]"
  by code_simp

end
